theory Spec2Isabelle
  imports Complex_Main
begin

section \<open>PHRIS risk engine: data model\<close>

text \<open>
  Python floats (clock readings of \<^verbatim>\<open>time.time()\<close>, speeds) are modelled as
  real numbers, Python ints (pixel coordinates, zone and posture risks, scores) as
  \<open>int\<close>. A \<^verbatim>\<open>deque(maxlen=100)\<close> is a list, oldest entry first, together with
  the append of the bounded deque.
\<close>

definition deque_append :: "nat \<Rightarrow> 'a list \<Rightarrow> 'a \<Rightarrow> 'a list" where
  \<comment> \<open>\<^verbatim>\<open>d.append(x)\<close> of a deque with \<^verbatim>\<open>maxlen = m\<close>: add on the right, then drop
      the leftmost entry when the length exceeds \<open>m\<close>.\<close>
  "deque_append m d x = (let d' = d @ [x] in if length d' > m then tl d' else d')"

record 'id PersonProfile =
  person_id :: 'id
  times_d :: "real list"
  positions :: "(int \<times> int) list"
  zones :: "string list"
  speeds :: "real list"
  risk_scores :: "int list"
  first_danger_time :: "real option"
  last_update :: real

definition PersonProfile_init :: "'id \<Rightarrow> real \<Rightarrow> 'id PersonProfile" where
  \<comment> \<open>\<^verbatim>\<open>PersonProfile.__init__\<close>; \<open>now\<close> is the reading of \<^verbatim>\<open>time.time()\<close>.\<close>
  "PersonProfile_init pid now =
     \<lparr>person_id = pid, times_d = [], positions = [], zones = [], speeds = [],
      risk_scores = [], first_danger_time = None, last_update = now\<rparr>"

type_synonym 'id store = "'id \<rightharpoonup> 'id PersonProfile"

definition get_profile :: "'id store \<Rightarrow> 'id \<Rightarrow> real \<Rightarrow> 'id store \<times> 'id PersonProfile" where
  "get_profile person_profiles pid now =
     (case person_profiles pid of
        None \<Rightarrow> (let p = PersonProfile_init pid now in (person_profiles(pid \<mapsto> p), p))
      | Some p \<Rightarrow> (person_profiles, p))"

text \<open>
  \<^verbatim>\<open>calculate_risk\<close> reads the clock up to five times in one call. Each reading is an
  input of the model: \<open>t_init\<close> (in \<^verbatim>\<open>PersonProfile.__init__\<close>, for a new identity),
  \<open>t_update\<close> (line 49), \<open>t_entry\<close> (line 60, on zone entry), \<open>t_dwell\<close> (line 62) and
  \<open>t_store\<close> (line 121).
\<close>

record clock =
  t_init :: real
  t_update :: real
  t_entry :: real
  t_dwell :: real
  t_store :: real

record risk_info =
  score :: int
  factors :: "(string \<times> int) list"
  trend :: string
  status :: string
  color :: "nat \<times> nat \<times> nat"
  zone :: string

section \<open>The six factors\<close>

definition dwell_factor ::
  "clock \<Rightarrow> bool \<Rightarrow> 'id PersonProfile \<Rightarrow> 'id PersonProfile \<times> int" where
  \<comment> \<open>FACTOR 2, lines 56-73: sets or clears \<^verbatim>\<open>first_danger_time\<close>.\<close>
  "dwell_factor clk in_danger_zone profile =
     (if in_danger_zone then
        (let start = (case first_danger_time profile of
                        None \<Rightarrow> t_entry clk | Some t0 \<Rightarrow> t0);
             profile' = profile\<lparr>first_danger_time := Some start\<rparr>;
             time_in_zone = t_dwell clk - start
         in (profile',
             if time_in_zone > 5 then 20
             else if time_in_zone > 3 then 15
             else if time_in_zone > 1 then 10
             else 0))
      else (profile\<lparr>first_danger_time := None\<rparr>, 0))"

definition speed_factor :: "real \<Rightarrow> int" where
  \<comment> \<open>FACTOR 3, lines 75-84.\<close>
  "speed_factor speed =
     (if speed > 200 then 20
      else if speed > 100 then 15
      else if speed > 50 then 10
      else if speed > 20 then 5
      else 0)"

definition proximity_factor :: "bool \<Rightarrow> int \<Rightarrow> int" where
  \<comment> \<open>FACTOR 5, lines 89-95.\<close>
  "proximity_factor in_danger_zone cx =
     (if in_danger_zone \<and> cx < 100 then 10
      else if in_danger_zone \<and> cx > 1180 then 10
      else 0)"

definition acceleration_factor :: "real list \<Rightarrow> real \<Rightarrow> int" where
  \<comment> \<open>FACTOR 6, lines 97-107, on the stored speeds before the new one is appended.\<close>
  "acceleration_factor stored speed =
     (if length stored \<ge> 2 then
        (let prev_speed = stored ! (length stored - 2);
             curr_speed = speed;
             acceleration = curr_speed - prev_speed
         in if acceleration > 50 then 10
            else if acceleration > 25 then 5
            else 0)
      else 0)"

section \<open>Trend, status and the factors dictionary\<close>

text \<open>
  The trend strings of the source carry an arrow glyph before the label; each glyph
  is written here as the three bytes of its UTF-8 encoding (U+2191 upwards, U+2193
  downwards, U+2192 rightwards), followed by a space and the label. The trend of a
  profile with fewer than three scores is the plain string \<^verbatim>\<open>STABLE\<close>.
\<close>

definition trend_of :: "int list \<Rightarrow> string" where
  \<comment> \<open>Lines 124-133, on the stored scores after the new one is appended.\<close>
  "trend_of scores =
     (if length scores \<ge> 3 then
        (let recent_scores = drop (length scores - 3) scores
         in if recent_scores ! 2 > recent_scores ! 0 + 10
            then CHR 0xE2 # CHR 0x86 # CHR 0x91 # '' INCREASING''
            else if recent_scores ! 2 < recent_scores ! 0 - 10
            then CHR 0xE2 # CHR 0x86 # CHR 0x93 # '' DECREASING''
            else CHR 0xE2 # CHR 0x86 # CHR 0x92 # '' STABLE'')
      else ''STABLE'')"

definition status_of :: "int \<Rightarrow> string \<times> (nat \<times> nat \<times> nat)" where
  \<comment> \<open>Lines 135-144.\<close>
  "status_of total_risk =
     (if total_risk < 30 then (''SAFE'', (0, 255, 0))
      else if total_risk < 60 then (''WARNING'', (0, 255, 255))
      else (''CRITICAL'', (0, 0, 255)))"

definition add_factor :: "string \<Rightarrow> int \<Rightarrow> (string \<times> int) list \<Rightarrow> (string \<times> int) list" where
  \<comment> \<open>\<^verbatim>\<open>if v > 0: factors[name] = v\<close>; the names are pairwise distinct, so the
      insertion-ordered dictionary is the list of the entries in insertion order.\<close>
  "add_factor name v fs = (if v > 0 then fs @ [(name, v)] else fs)"

definition build_factors :: "int \<Rightarrow> int \<Rightarrow> int \<Rightarrow> int \<Rightarrow> int \<Rightarrow> int \<Rightarrow> (string \<times> int) list" where
  \<comment> \<open>Lines 146-159.\<close>
  "build_factors factor_zone factor_time factor_speed factor_posture
                 factor_proximity factor_acceleration =
     add_factor ''Accel'' factor_acceleration
       (add_factor ''Proximity'' factor_proximity
         (add_factor ''Posture'' factor_posture
           (add_factor ''Speed'' factor_speed
             (add_factor ''Time'' factor_time
               (add_factor ''Zone'' factor_zone [])))))"

section \<open>calculate_risk\<close>

definition calculate_risk ::
  "clock \<Rightarrow> 'id store \<Rightarrow> 'id \<Rightarrow> int \<Rightarrow> int \<Rightarrow> bool \<Rightarrow> string \<Rightarrow> int \<Rightarrow> real \<Rightarrow> string \<Rightarrow> int
     \<Rightarrow> risk_info \<times> 'id store" where
  "calculate_risk clk person_profiles pid cx cy in_danger_zone zone_name zone_risk
                  speed posture posture_risk =
     (let (person_profiles, profile) = get_profile person_profiles pid (t_init clk);
          profile = profile\<lparr>last_update := t_update clk\<rparr>;
          factor_zone = (if in_danger_zone then zone_risk else 0);
          (profile, factor_time) = dwell_factor clk in_danger_zone profile;
          factor_speed = speed_factor speed;
          factor_posture = min 20 posture_risk;
          factor_proximity = proximity_factor in_danger_zone cx;
          factor_acceleration = acceleration_factor (speeds profile) speed;
          profile = profile\<lparr>speeds := deque_append 100 (speeds profile) speed\<rparr>;
          total_risk = factor_zone + factor_time + factor_speed
                       + factor_posture + factor_proximity + factor_acceleration;
          total_risk = min 100 total_risk;
          profile = profile\<lparr>risk_scores := deque_append 100 (risk_scores profile) total_risk\<rparr>;
          profile = profile\<lparr>zones := deque_append 100 (zones profile) zone_name\<rparr>;
          profile = profile\<lparr>times_d := deque_append 100 (times_d profile) (t_store clk)\<rparr>;
          profile = profile\<lparr>positions := deque_append 100 (positions profile) (cx, cy)\<rparr>;
          trend = trend_of (risk_scores profile);
          (status, color) = status_of total_risk;
          factors = build_factors factor_zone factor_time factor_speed factor_posture
                                  factor_proximity factor_acceleration
      in (\<lparr>score = total_risk, factors = factors, trend = trend, status = status,
           color = color, zone = zone_name\<rparr>,
          person_profiles(pid \<mapsto> profile)))"

section \<open>Sequences of calls\<close>

record 'id risk_call =
  c_clk :: clock
  c_pid :: 'id
  c_cx :: int
  c_cy :: int
  c_in_danger_zone :: bool
  c_zone_name :: string
  c_zone_risk :: int
  c_speed :: real
  c_posture :: string
  c_posture_risk :: int

definition do_call :: "'id store \<Rightarrow> 'id risk_call \<Rightarrow> risk_info \<times> 'id store" where
  "do_call st c =
     calculate_risk (c_clk c) st (c_pid c) (c_cx c) (c_cy c) (c_in_danger_zone c)
       (c_zone_name c) (c_zone_risk c) (c_speed c) (c_posture c) (c_posture_risk c)"

fun run_calls :: "'id store \<Rightarrow> 'id risk_call list \<Rightarrow> risk_info list \<times> 'id store" where
  \<comment> \<open>The calls of the list one after the other, on the process-wide dictionary
      \<^verbatim>\<open>person_profiles\<close>: the results in call order and the final dictionary.\<close>
  "run_calls st [] = ([], st)"
| "run_calls st (c # cs) =
     (let (r, st1) = do_call st c;
          (rs, st2) = run_calls st1 cs
      in (r # rs, st2))"

definition calls_for :: "'id \<Rightarrow> 'id risk_call list \<Rightarrow> risk_info list \<Rightarrow> ('id risk_call \<times> risk_info) list" where
  \<comment> \<open>The calls made for one identity, each with its result, in call order.\<close>
  "calls_for pid cs rs = filter (\<lambda>(c, r). c_pid c = pid) (zip cs rs)"

section \<open>Zone classification (zone\_utils.py)\<close>

record zone_info =
  z_coords :: "(int \<times> int) list"
  z_color :: "nat \<times> nat \<times> nat"
  z_risk :: int
  z_name :: string
  z_description :: string

definition DANGER_ZONES :: "(string \<times> zone_info) list" where
  \<comment> \<open>The dictionary literal of lines 12-36, in insertion order.\<close>
  "DANGER_ZONES =
     [(''HEAVY_MACHINERY'',
        \<lparr>z_coords = [(300, 200), (900, 200), (900, 600), (300, 600)],
         z_color = (0, 0, 255), z_risk = 40, z_name = ''HEAVY MACHINERY AREA'',
         z_description = ''Industrial machinery - highest danger''\<rparr>),
      (''ELECTRICAL'',
        \<lparr>z_coords = [(500, 150), (700, 150), (700, 400), (500, 400)],
         z_color = (0, 165, 255), z_risk = 35, z_name = ''ELECTRICAL AREA'',
         z_description = ''High voltage equipment''\<rparr>),
      (''CHEMICAL'',
        \<lparr>z_coords = [(100, 100), (250, 100), (250, 300), (100, 300)],
         z_color = (0, 255, 255), z_risk = 30, z_name = ''CHEMICAL STORAGE'',
         z_description = ''Hazardous materials area''\<rparr>)]"

text \<open>
  \<^verbatim>\<open>cv2.pointPolygonTest(coords, point, False)\<close> is a routine of the OpenCV library;
  \<^verbatim>\<open>is_person_in_danger_zone\<close> takes it as the parameter \<open>ppt\<close>. The loop over
  \<^verbatim>\<open>DANGER_ZONES.items()\<close> is the recursion over the list of zones.
\<close>

fun is_person_in_danger_zone ::
  "((int \<times> int) list \<Rightarrow> int \<times> int \<Rightarrow> real) \<Rightarrow> (string \<times> zone_info) list \<Rightarrow> int \<Rightarrow> int
     \<Rightarrow> bool \<times> string \<times> int" where
  "is_person_in_danger_zone ppt [] cx cy = (False, ''SAFE'', 0)"
| "is_person_in_danger_zone ppt ((zone_name, zone_info) # rest) cx cy =
     (let point = (cx, cy);
          coords = z_coords zone_info;
          result = ppt coords point
      in if result \<ge> 0 then (True, zone_name, z_risk zone_info)
         else is_person_in_danger_zone ppt rest cx cy)"

fun edge_scan :: "int \<times> int \<Rightarrow> ((int \<times> int) \<times> (int \<times> int)) list \<Rightarrow> nat \<Rightarrow> real" where
  \<comment> \<open>Modelled from the spec: the loop of the ray-casting test \<open>pointPolygonTest\<close>
      below over the edges \<open>(v0, v)\<close> of the polygon. It answers 0 as soon as the point
      lies on an edge, and otherwise counts the edges crossed by the ray.\<close>
  "edge_scan ip [] counter = (if even counter then - 1 else 1)"
| "edge_scan (px, py) (((v0x, v0y), (vx, vy)) # es) counter =
     (if (v0y \<le> py \<and> vy \<le> py) \<or> (v0y > py \<and> vy > py) \<or> (v0x < px \<and> vx < px) then
        (if py = vy \<and> (px = vx \<or> (py = v0y \<and>
              ((v0x \<le> px \<and> px \<le> vx) \<or> (vx \<le> px \<and> px \<le> v0x))))
         then 0
         else edge_scan (px, py) es counter)
      else
        (let dist = (py - v0y) * (vx - v0x) - (px - v0x) * (vy - v0y)
         in if dist = 0 then 0
            else edge_scan (px, py) es
                   (if (if vy < v0y then - dist else dist) > 0 then Suc counter else counter)))"

definition pointPolygonTest :: "(int \<times> int) list \<Rightarrow> int \<times> int \<Rightarrow> real" where
  \<comment> \<open>Modelled from the spec: \<^verbatim>\<open>cv2.pointPolygonTest\<close> with \<^verbatim>\<open>measureDist = False\<close> is
      a routine of the OpenCV library, outside the repository. "Tests
      point-in-polygon via a ray-casting rule where boundary points count as inside":
      1 inside, 0 on an edge or a vertex, -1 outside (the comment at line 104 of
      zone\_utils.py), by counting the edges that a ray from the point crosses. It
      serves to evaluate the classification on \<open>DANGER_ZONES\<close>.\<close>
  "pointPolygonTest contour pt =
     (if contour = [] then - 1
      else edge_scan pt (zip (last contour # butlast contour) contour) 0)"

section \<open>Speed estimation (tracker\_utils.py)\<close>

datatype error = IndexError | ZeroDivisionError

record hist =
  h_positions :: "(int \<times> int) list"
  h_times :: "real list"
  h_speed :: real

definition index_from_end :: "'a list \<Rightarrow> nat \<Rightarrow> error + 'a" where
  \<comment> \<open>\<^verbatim>\<open>xs[-k]\<close> for \<open>k \<ge> 1\<close>; out of range raises IndexError.\<close>
  "index_from_end xs k =
     (if 1 \<le> k \<and> k \<le> length xs then Inr (xs ! (length xs - k)) else Inl IndexError)"

definition float_div :: "real \<Rightarrow> real \<Rightarrow> error + real" where
  \<comment> \<open>\<^verbatim>\<open>a / b\<close>; a zero divisor is the error.\<close>
  "float_div a b = (if b = 0 then Inl ZeroDivisionError else Inr (a / b))"

definition speed_of_hist :: "hist \<Rightarrow> error + real" where
  \<comment> \<open>Lines 97-111: the speed from the last two positions.\<close>
  "speed_of_hist h =
     (if length (h_positions h) \<ge> 2 then
        (case (index_from_end (h_positions h) 2, index_from_end (h_positions h) 1,
               index_from_end (h_times h) 1, index_from_end (h_times h) 2) of
           (Inr (prev_x, prev_y), Inr (curr_x, curr_y), Inr t1, Inr t2) \<Rightarrow>
             (let distance = sqrt (real_of_int ((curr_x - prev_x)\<^sup>2 + (curr_y - prev_y)\<^sup>2));
                  time_diff = t1 - t2
              in if time_diff > 0 then float_div distance time_diff else Inr 0)
         | _ \<Rightarrow> Inl IndexError)
      else Inr 0)"

definition calculate_speed ::
  "('id \<rightharpoonup> hist) \<Rightarrow> 'id \<Rightarrow> int \<Rightarrow> int \<Rightarrow> real \<Rightarrow> error + (real \<times> ('id \<rightharpoonup> hist))" where
  "calculate_speed position_history pid cx cy current_time =
     (let h = (case position_history pid of
                 None \<Rightarrow> \<lparr>h_positions = [], h_times = [], h_speed = 0\<rparr>
               | Some h \<Rightarrow> h);
          h = h\<lparr>h_positions := h_positions h @ [(cx, cy)]\<rparr>;
          h = h\<lparr>h_times := h_times h @ [current_time]\<rparr>;
          h = (if length (h_positions h) > 10
               then h\<lparr>h_positions := tl (h_positions h), h_times := tl (h_times h)\<rparr>
               else h)
      in case speed_of_hist h of
           Inl e \<Rightarrow> Inl e
         | Inr speed \<Rightarrow> Inr (speed, position_history(pid \<mapsto> h\<lparr>h_speed := speed\<rparr>)))"

section \<open>Critical alerts of the main loop (main.py)\<close>

record alert_state =
  total_alerts :: nat
  last_alert_time :: real

definition alert_init :: alert_state where
  \<comment> \<open>Lines 48-52.\<close>
  "alert_init = \<lparr>total_alerts = 0, last_alert_time = 0\<rparr>"

definition critical_people_of :: "('id \<times> int) list \<Rightarrow> ('id \<times> int) list" where
  \<comment> \<open>Lines 90 and 169-171: the identities of the frame, in track order, with a
      score above 70.\<close>
  "critical_people_of scored = filter (\<lambda>(track_id, risk_score). risk_score > 70) scored"

definition handle_critical_alerts :: "alert_state \<Rightarrow> real \<Rightarrow> ('id \<times> int) list \<Rightarrow> alert_state" where
  \<comment> \<open>Lines 173-177.\<close>
  "handle_critical_alerts st current_time critical_people =
     (if critical_people \<noteq> [] then
        (if current_time - last_alert_time st > 1
         then st\<lparr>total_alerts := total_alerts st + 1, last_alert_time := current_time\<rparr>
         else st)
      else st)"

type_synonym 'id frame = "real \<times> ('id \<times> int) list"

definition frame_step :: "alert_state \<Rightarrow> 'id frame \<Rightarrow> alert_state" where
  \<comment> \<open>One iteration of the main loop, as far as the alert state goes: the frame is
      its clock reading and the scored identities.\<close>
  "frame_step st f = handle_critical_alerts st (fst f) (critical_people_of (snd f))"

definition run_frames :: "alert_state \<Rightarrow> 'id frame list \<Rightarrow> alert_state" where
  \<comment> \<open>The frames of the list one after the other.\<close>
  "run_frames st fs = foldl frame_step st fs"

fun alert_log :: "alert_state \<Rightarrow> 'id frame list \<Rightarrow> real list" where
  \<comment> \<open>The clock readings of the frames on which the counter was incremented.\<close>
  "alert_log st [] = []"
| "alert_log st (f # fs) =
     (let st' = frame_step st f
      in (if total_alerts st' \<noteq> total_alerts st then [fst f] else []) @ alert_log st' fs)"

section \<open>Parts of one call, named\<close>

text \<open>
  The following constants name parts of one \<^verbatim>\<open>calculate_risk\<close> call so that results
  can be stated about them: the profile the call works on, the value written to
  \<^verbatim>\<open>first_danger_time\<close>, the sum of the six factors before the cap, and the profile
  the call leaves behind. Lemma \<open>calculate_risk_eq\<close> below shows that they are what
  \<open>calculate_risk\<close> computes.
\<close>

definition entry_profile :: "clock \<Rightarrow> 'id store \<Rightarrow> 'id \<Rightarrow> 'id PersonProfile" where
  "entry_profile clk st pid =
     (case st pid of None \<Rightarrow> PersonProfile_init pid (t_init clk) | Some p \<Rightarrow> p)"

definition dwell_start :: "clock \<Rightarrow> bool \<Rightarrow> real option \<Rightarrow> real option" where
  "dwell_start clk dz old =
     (if dz then Some (case old of None \<Rightarrow> t_entry clk | Some t0 \<Rightarrow> t0) else None)"

definition factor_sum ::
  "clock \<Rightarrow> 'id PersonProfile \<Rightarrow> int \<Rightarrow> bool \<Rightarrow> int \<Rightarrow> real \<Rightarrow> int \<Rightarrow> int" where
  "factor_sum clk p cx dz zr sp pr =
     (if dz then zr else 0) + snd (dwell_factor clk dz p) + speed_factor sp
       + min 20 pr + proximity_factor dz cx + acceleration_factor (speeds p) sp"

definition exit_profile ::
  "clock \<Rightarrow> 'id PersonProfile \<Rightarrow> int \<Rightarrow> int \<Rightarrow> bool \<Rightarrow> string \<Rightarrow> int \<Rightarrow> real \<Rightarrow> int
     \<Rightarrow> 'id PersonProfile" where
  "exit_profile clk p cx cy dz zn zr sp pr =
     p\<lparr>last_update := t_update clk,
       first_danger_time := dwell_start clk dz (first_danger_time p),
       speeds := deque_append 100 (speeds p) sp,
       risk_scores := deque_append 100 (risk_scores p) (min 100 (factor_sum clk p cx dz zr sp pr)),
       zones := deque_append 100 (zones p) zn,
       times_d := deque_append 100 (times_d p) (t_store clk),
       positions := deque_append 100 (positions p) (cx, cy)\<rparr>"

definition clock_at :: "real \<Rightarrow> clock" where
  \<comment> \<open>A call during which every clock reading gives the same instant.\<close>
  "clock_at t = \<lparr>t_init = t, t_update = t, t_entry = t, t_dwell = t, t_store = t\<rparr>"

definition dwelling_store :: "nat store" where
  \<comment> \<open>The dictionary after two calls for identity 7, standing in the zone of risk 40
      at the instants 1000 and 1003, with the speeds 0 and 30.\<close>
  "dwelling_store =
     snd (run_calls Map.empty
       [\<lparr>c_clk = clock_at 1000, c_pid = 7, c_cx = 600, c_cy = 500, c_in_danger_zone = True,
         c_zone_name = ''HEAVY_MACHINERY'', c_zone_risk = 40, c_speed = 0,
         c_posture = ''STANDING'', c_posture_risk = 0\<rparr>,
        \<lparr>c_clk = clock_at 1003, c_pid = 7, c_cx = 600, c_cy = 500, c_in_danger_zone = True,
         c_zone_name = ''HEAVY_MACHINERY'', c_zone_risk = 40, c_speed = 30,
         c_posture = ''STANDING'', c_posture_risk = 0\<rparr>])"

definition ramp_calls :: "nat \<Rightarrow> nat risk_call list" where
  \<comment> \<open>\<open>n\<close> calls for identity 7 outside every zone, one per second from the instant 1000
      on, the \<open>i\<close>-th at speed \<open>i\<close> and at the position \<open>(i, 2 i)\<close>.\<close>
  "ramp_calls n =
     map (\<lambda>i. \<lparr>c_clk = clock_at (1000 + real i), c_pid = 7, c_cx = int i, c_cy = 2 * int i,
                 c_in_danger_zone = False, c_zone_name = ''SAFE'', c_zone_risk = 0,
                 c_speed = real i, c_posture = ''STANDING'', c_posture_risk = 0\<rparr>) [0..<n]"

definition kept :: "'a list \<Rightarrow> 'a list" where
  \<comment> \<open>What a deque of capacity 100 holds after the entries \<open>xs\<close> were appended to it one
      by one: the last 100 of them.\<close>
  "kept xs = drop (length xs - 100) xs"

definition profile_tracks :: "'id PersonProfile \<Rightarrow> ('id risk_call \<times> risk_info) list \<Rightarrow> bool" where
  \<comment> \<open>The five histories of a profile hold the last 100 observations of the calls
      \<open>mine\<close> made for its identity, given with their results.\<close>
  "profile_tracks p mine \<longleftrightarrow>
     times_d p = kept (map (\<lambda>(c, r). t_store (c_clk c)) mine)
     \<and> positions p = kept (map (\<lambda>(c, r). (c_cx c, c_cy c)) mine)
     \<and> zones p = kept (map (\<lambda>(c, r). c_zone_name c) mine)
     \<and> speeds p = kept (map (\<lambda>(c, r). c_speed c) mine)
     \<and> risk_scores p = kept (map (\<lambda>(c, r). score r) mine)"

section \<open>One call, unfolded\<close>

lemma fst_dwell_factor:
  "fst (dwell_factor clk dz p) = p\<lparr>first_danger_time := dwell_start clk dz (first_danger_time p)\<rparr>"
  by (simp add: dwell_factor_def dwell_start_def Let_def)

lemma snd_dwell_factor_last_update:
  "snd (dwell_factor clk dz (p\<lparr>last_update := t\<rparr>)) = snd (dwell_factor clk dz p)"
  by (simp add: dwell_factor_def Let_def)

lemma fst_dwell_factor_last_update:
  "fst (dwell_factor clk dz (p\<lparr>last_update := t\<rparr>)) = (fst (dwell_factor clk dz p))\<lparr>last_update := t\<rparr>"
  by (simp add: dwell_factor_def Let_def)

lemma get_profile_eq:
  "get_profile st pid (t_init clk) =
     ((case st pid of None \<Rightarrow> st(pid \<mapsto> entry_profile clk st pid) | Some p \<Rightarrow> st),
      entry_profile clk st pid)"
  by (simp add: get_profile_def entry_profile_def Let_def split: option.splits)

lemma calculate_risk_eq:
  "calculate_risk clk st pid cx cy dz zn zr sp po pr =
     (let p = entry_profile clk st pid;
          total = min 100 (factor_sum clk p cx dz zr sp pr)
      in (\<lparr>score = total,
           factors = build_factors (if dz then zr else 0) (snd (dwell_factor clk dz p))
                       (speed_factor sp) (min 20 pr) (proximity_factor dz cx)
                       (acceleration_factor (speeds p) sp),
           trend = trend_of (deque_append 100 (risk_scores p) total),
           status = fst (status_of total), color = snd (status_of total), zone = zn\<rparr>,
          st(pid \<mapsto> exit_profile clk p cx cy dz zn zr sp pr)))"
proof -
  have upd: "(case st pid of None \<Rightarrow> st(pid \<mapsto> q) | Some p \<Rightarrow> st)(pid \<mapsto> r) = st(pid \<mapsto> r)" for q r
    by (simp split: option.splits)
  show ?thesis
    unfolding calculate_risk_def get_profile_eq
    by (simp only: Let_def case_prod_beta fst_conv snd_conv upd snd_dwell_factor_last_update
          fst_dwell_factor_last_update fst_dwell_factor factor_sum_def exit_profile_def)
       simp
qed







lemma map_of_add_factor:
  "map_of (add_factor n v fs) k =
     (case map_of fs k of Some x \<Rightarrow> Some x
      | None \<Rightarrow> if k = n \<and> v > 0 then Some v else None)"
  by (simp add: add_factor_def map_add_def split: option.splits)

lemma map_of_build_factors_Accel:
  "map_of (build_factors a b c d e f) ''Accel'' = (if f > 0 then Some f else None)"
  by (simp add: build_factors_def map_of_add_factor)

lemma map_of_build_factors_Time:
  "map_of (build_factors a b c d e f) ''Time'' = (if b > 0 then Some b else None)"
  by (simp add: build_factors_def map_of_add_factor)

lemma calculate_risk_info:
  assumes "calculate_risk clk st pid cx cy dz zn zr sp po pr = (info, st')"
  shows "score info = min 100 (factor_sum clk (entry_profile clk st pid) cx dz zr sp pr)"
    and "factors info =
           build_factors (if dz then zr else 0)
             (snd (dwell_factor clk dz (entry_profile clk st pid)))
             (speed_factor sp) (min 20 pr) (proximity_factor dz cx)
             (acceleration_factor (speeds (entry_profile clk st pid)) sp)"
    and "trend info = trend_of (deque_append 100 (risk_scores (entry_profile clk st pid)) (score info))"
    and "status info = fst (status_of (score info))"
    and "st' = st(pid \<mapsto> exit_profile clk (entry_profile clk st pid) cx cy dz zn zr sp pr)"
  using assms by (auto simp: calculate_risk_eq Let_def)

section \<open>Evaluating concrete calls\<close>

lemmas risk_eval = calculate_risk_eq Let_def entry_profile_def exit_profile_def
  PersonProfile_init_def factor_sum_def dwell_factor_def dwell_start_def clock_at_def
  speed_factor_def proximity_factor_def acceleration_factor_def deque_append_def
  build_factors_def add_factor_def trend_of_def status_of_def

lemma run_calls_snoc:
  "run_calls st (cs @ [c]) =
     (fst (run_calls st cs) @ [fst (do_call (snd (run_calls st cs)) c)],
      snd (do_call (snd (run_calls st cs)) c))"
  by (induction cs arbitrary: st) (simp_all add: case_prod_beta Let_def)

lemma dwelling_store_eq:
  "dwelling_store =
     [7 \<mapsto> \<lparr>person_id = 7, times_d = [1000, 1003], positions = [(600, 500), (600, 500)],
            zones = [''HEAVY_MACHINERY'', ''HEAVY_MACHINERY''], speeds = [0, 30],
            risk_scores = [40, 55], first_danger_time = Some 1000, last_update = 1003\<rparr>]"
proof -
  have call1:
    "calculate_risk (clock_at 1000) Map.empty (7::nat) 600 500 True ''HEAVY_MACHINERY'' 40 0 ''STANDING'' 0
     = (\<lparr>score = 40, factors = [(''Zone'', 40)], trend = ''STABLE'', status = ''WARNING'',
        color = (0, 255, 255), zone = ''HEAVY_MACHINERY''\<rparr>,
      [7 \<mapsto> \<lparr>person_id = 7, times_d = [1000], positions = [(600, 500)],
            zones = [''HEAVY_MACHINERY''], speeds = [0],
            risk_scores = [40], first_danger_time = Some 1000, last_update = 1000\<rparr>])"
    by (simp add: risk_eval)
  have call2:
    "snd (calculate_risk (clock_at 1003) [7 \<mapsto> \<lparr>person_id = 7, times_d = [1000], positions = [(600, 500)],
            zones = [''HEAVY_MACHINERY''], speeds = [0],
            risk_scores = [40], first_danger_time = Some 1000, last_update = 1000\<rparr>] (7::nat) 600 500 True ''HEAVY_MACHINERY'' 40 30 ''STANDING'' 0)
     = [7 \<mapsto> \<lparr>person_id = 7, times_d = [1000, 1003], positions = [(600, 500), (600, 500)],
            zones = [''HEAVY_MACHINERY'', ''HEAVY_MACHINERY''], speeds = [0, 30],
            risk_scores = [40, 55], first_danger_time = Some 1000, last_update = 1003\<rparr>]"
    by (simp add: risk_eval)
  show ?thesis
    unfolding dwelling_store_def
    by (simp add: do_call_def call1 call2 case_prod_beta)
qed

section \<open>The score of one call\<close>





section \<open>The profile before and after one call\<close>

lemma entry_profile_Some: "st pid = Some p \<Longrightarrow> entry_profile clk st pid = p"
  by (simp add: entry_profile_def)

lemma entry_profile_None: "st pid = None \<Longrightarrow> entry_profile clk st pid = PersonProfile_init pid (t_init clk)"
  by (simp add: entry_profile_def)

lemma speeds_entry_profile:
  "speeds (entry_profile clk st pid) = (case st pid of None \<Rightarrow> [] | Some p \<Rightarrow> speeds p)"
  by (simp add: entry_profile_def PersonProfile_init_def split: option.splits)

lemma risk_scores_entry_profile:
  "risk_scores (entry_profile clk st pid) = (case st pid of None \<Rightarrow> [] | Some p \<Rightarrow> risk_scores p)"
  by (simp add: entry_profile_def PersonProfile_init_def split: option.splits)

lemma first_danger_time_entry_profile:
  "first_danger_time (entry_profile clk st pid) =
     (case st pid of None \<Rightarrow> None | Some p \<Rightarrow> first_danger_time p)"
  by (simp add: entry_profile_def PersonProfile_init_def split: option.splits)

lemma exit_profile_fields:
  "speeds (exit_profile clk p cx cy dz zn zr sp pr) = deque_append 100 (speeds p) sp"
  "risk_scores (exit_profile clk p cx cy dz zn zr sp pr) =
     deque_append 100 (risk_scores p) (min 100 (factor_sum clk p cx dz zr sp pr))"
  "zones (exit_profile clk p cx cy dz zn zr sp pr) = deque_append 100 (zones p) zn"
  "times_d (exit_profile clk p cx cy dz zn zr sp pr) = deque_append 100 (times_d p) (t_store clk)"
  "positions (exit_profile clk p cx cy dz zn zr sp pr) = deque_append 100 (positions p) (cx, cy)"
  "first_danger_time (exit_profile clk p cx cy dz zn zr sp pr) = dwell_start clk dz (first_danger_time p)"
  "last_update (exit_profile clk p cx cy dz zn zr sp pr) = t_update clk"
  "person_id (exit_profile clk p cx cy dz zn zr sp pr) = person_id p"
  by (simp_all add: exit_profile_def)

section \<open>Acceleration\<close>

text \<open>
  C3. In every call of \<open>calculate_risk\<close>, with \<open>stored\<close> the speeds the profile holds
  when the call starts (none for a new identity): if there are at least two, the
  acceleration delta is the current speed minus the second-most-recent stored speed,
  \<^verbatim>\<open>profile.speeds[-2]\<close>, read before the new speed is appended, and the acceleration
  factor is 10 if the delta exceeds 50, 5 if it exceeds 25, else 0; with fewer than
  two stored speeds the factor is 0. The factor is the entry \<^verbatim>\<open>Accel\<close> of the factors
  mapping (absent when 0) and the sixth summand of the score; the new speed is
  appended to the stored speeds afterwards.
\<close>

theorem acceleration_one_step_lookback:
  assumes "calculate_risk clk st pid cx cy dz zn zr speed po pr = (info, st')"
    and "stored = (case st pid of None \<Rightarrow> [] | Some p \<Rightarrow> speeds p)"
  shows "map_of (factors info) ''Accel'' =
           (if length stored \<ge> 2 then
              (if speed - stored ! (length stored - 2) > 50 then Some 10
               else if speed - stored ! (length stored - 2) > 25 then Some 5
               else None)
            else None)
       \<and> acceleration_factor stored speed =
           (if length stored \<ge> 2 then
              (if speed - stored ! (length stored - 2) > 50 then 10
               else if speed - stored ! (length stored - 2) > 25 then 5
               else 0)
            else 0)
       \<and> score info = min 100 ((if dz then zr else 0)
                         + snd (dwell_factor clk dz (entry_profile clk st pid))
                         + speed_factor speed + min 20 pr + proximity_factor dz cx
                         + acceleration_factor stored speed)
       \<and> map_option speeds (st' pid) = Some (deque_append 100 stored speed)"
proof -
  have stored: "speeds (entry_profile clk st pid) = stored"
    by (simp add: speeds_entry_profile assms(2))
  have acc: "acceleration_factor stored speed =
           (if length stored \<ge> 2 then
              (if speed - stored ! (length stored - 2) > 50 then 10
               else if speed - stored ! (length stored - 2) > 25 then 5
               else 0)
            else 0)"
    by (simp add: acceleration_factor_def Let_def)
  have "map_of (factors info) ''Accel'' =
          (if acceleration_factor stored speed > 0 then Some (acceleration_factor stored speed) else None)"
    by (simp add: calculate_risk_info(2) [OF assms(1)] map_of_build_factors_Accel stored)
  then have m: "map_of (factors info) ''Accel'' =
           (if length stored \<ge> 2 then
              (if speed - stored ! (length stored - 2) > 50 then Some 10
               else if speed - stored ! (length stored - 2) > 25 then Some 5
               else None)
            else None)"
    by (simp add: acc)
  have sc: "score info = min 100 ((if dz then zr else 0)
                         + snd (dwell_factor clk dz (entry_profile clk st pid))
                         + speed_factor speed + min 20 pr + proximity_factor dz cx
                         + acceleration_factor stored speed)"
    using calculate_risk_info(1) [OF assms(1)] by (simp add: factor_sum_def stored)
  have st: "map_option speeds (st' pid) = Some (deque_append 100 stored speed)"
    by (simp add: calculate_risk_info(5) [OF assms(1)] exit_profile_fields stored)
  from m acc sc st show ?thesis by blast
qed

text \<open>
  The theorem on \<open>dwelling_store\<close>, whose stored speeds are 0 and 30: a call with speed
  60 has the delta 60 - 0, not 60 - 30, hence the factor 10.
\<close>

theorem acceleration_one_step_lookback_witness:
  "map_of (factors (fst (calculate_risk (clock_at 1006) dwelling_store 7 600 500 True
                      ''HEAVY_MACHINERY'' 40 60 ''STANDING'' 0))) ''Accel'' = Some 10
   \<and> map_option speeds (snd (calculate_risk (clock_at 1006) dwelling_store 7 600 500 True
                      ''HEAVY_MACHINERY'' 40 60 ''STANDING'' 0) 7) = Some [0, 30, 60]"
proof -
  let ?r = "calculate_risk (clock_at 1006) dwelling_store 7 600 500 True
              ''HEAVY_MACHINERY'' 40 60 ''STANDING'' 0"
  have call: "?r = (fst ?r, snd ?r)" by simp
  have stored: "[0, 30] = (case dwelling_store 7 of None \<Rightarrow> [] | Some p \<Rightarrow> speeds p)"
    by (simp add: dwelling_store_eq)
  from acceleration_one_step_lookback [OF call stored] show ?thesis
    by (simp add: deque_append_def)
qed

section \<open>Status\<close>

text \<open>
  C4. In every call of \<open>calculate_risk\<close> the returned status is SAFE when the score is
  below 30, WARNING when it is at least 30 and below 60, and CRITICAL from 60 on; a
  score of exactly 60 is CRITICAL; and an identity that has been in a zone of risk 40
  for more than 5 seconds, with posture risk 0 and no speed, proximity or acceleration
  factor, scores exactly 60, with the factors Zone 40 and Time 20, and is CRITICAL.
\<close>

theorem status_thresholds:
  assumes "calculate_risk clk st pid cx cy dz zn zr sp po pr = (info, st')"
  shows "status info = (if score info < 30 then ''SAFE''
                        else if score info < 60 then ''WARNING'' else ''CRITICAL'')
       \<and> (score info = 60 \<longrightarrow> status info = ''CRITICAL'')
       \<and> (\<forall>p t0. dz \<and> zr = 40 \<and> st pid = Some p \<and> first_danger_time p = Some t0
                  \<and> t_dwell clk - t0 > 5 \<and> pr = 0 \<and> speed_factor sp = 0
                  \<and> proximity_factor dz cx = 0 \<and> acceleration_factor (speeds p) sp = 0
             \<longrightarrow> score info = 60 \<and> status info = ''CRITICAL''
                 \<and> factors info = [(''Zone'', 40), (''Time'', 20)])"
proof (intro conjI allI impI)
  show s: "status info = (if score info < 30 then ''SAFE''
                        else if score info < 60 then ''WARNING'' else ''CRITICAL'')"
    by (simp add: calculate_risk_info(4) [OF assms] status_of_def)
  show "status info = ''CRITICAL''" if "score info = 60"
    using that by (simp add: s)
  fix p t0
  assume h: "dz \<and> zr = 40 \<and> st pid = Some p \<and> first_danger_time p = Some t0
               \<and> t_dwell clk - t0 > 5 \<and> pr = 0 \<and> speed_factor sp = 0
               \<and> proximity_factor dz cx = 0 \<and> acceleration_factor (speeds p) sp = 0"
  then have dz: "dz = True" and zr: "zr = 40" and p: "st pid = Some p"
    and t0: "first_danger_time p = Some t0" "t_dwell clk - t0 > 5"
    and z: "pr = 0" "speed_factor sp = 0" "proximity_factor True cx = 0"
           "acceleration_factor (speeds p) sp = 0"
    by auto
  have e: "entry_profile clk st pid = p" using p by (rule entry_profile_Some)
  have d: "snd (dwell_factor clk True p) = 20"
    using t0 by (simp add: dwell_factor_def Let_def)
  show sc: "score info = 60"
    by (simp add: calculate_risk_info(1) [OF assms] e d factor_sum_def dz zr z)
  show "factors info = [(''Zone'', 40), (''Time'', 20)]"
    by (simp add: calculate_risk_info(2) [OF assms] e d dz zr z build_factors_def add_factor_def)
  show "status info = ''CRITICAL''"
    by (simp add: s sc)
qed

text \<open>
  The scenario on \<open>dwelling_store\<close>: in the zone since the instant 1000, called at 1006.
\<close>

theorem status_thresholds_witness:
  "score (fst (calculate_risk (clock_at 1006) dwelling_store 7 600 500 True
                 ''HEAVY_MACHINERY'' 40 0 ''STANDING'' 0)) = 60
   \<and> status (fst (calculate_risk (clock_at 1006) dwelling_store 7 600 500 True
                 ''HEAVY_MACHINERY'' 40 0 ''STANDING'' 0)) = ''CRITICAL''
   \<and> factors (fst (calculate_risk (clock_at 1006) dwelling_store 7 600 500 True
                 ''HEAVY_MACHINERY'' 40 0 ''STANDING'' 0)) = [(''Zone'', 40), (''Time'', 20)]"
proof -
  let ?r = "calculate_risk (clock_at 1006) dwelling_store 7 600 500 True
              ''HEAVY_MACHINERY'' 40 0 ''STANDING'' 0"
  let ?p = "\<lparr>person_id = 7::nat, times_d = [1000, 1003], positions = [(600, 500), (600, 500)],
            zones = [''HEAVY_MACHINERY'', ''HEAVY_MACHINERY''], speeds = [0, 30],
            risk_scores = [40, 55], first_danger_time = Some 1000, last_update = 1003\<rparr>"
  have call: "?r = (fst ?r, snd ?r)" by simp
  have hyp: "True \<and> (40::int) = 40 \<and> dwelling_store 7 = Some ?p \<and> first_danger_time ?p = Some 1000
             \<and> t_dwell (clock_at 1006) - 1000 > 5 \<and> (0::int) = 0 \<and> speed_factor 0 = 0
             \<and> proximity_factor True 600 = 0 \<and> acceleration_factor (speeds ?p) 0 = 0"
    by (simp add: dwelling_store_eq clock_at_def speed_factor_def proximity_factor_def
          acceleration_factor_def)
  from status_thresholds [OF call] hyp show ?thesis
    by blast
qed


section \<open>The bounded deque\<close>

lemma last_deque_append: "0 < m \<Longrightarrow> last (deque_append m d x) = x"
  by (cases d) (simp_all add: deque_append_def Let_def)

lemma deque_append_drop:
  assumes "0 < m"
  shows "deque_append m (drop (length xs - m) xs) x = drop (length (xs @ [x]) - m) (xs @ [x])"
proof (cases "length xs < m")
  case True
  then show ?thesis by (simp add: deque_append_def Let_def)
next
  case False
  then have len: "length (drop (length xs - m) xs) = m" by simp
  with assms have ne: "drop (length xs - m) xs \<noteq> []" by auto
  have "deque_append m (drop (length xs - m) xs) x = tl (drop (length xs - m) xs @ [x])"
    by (simp add: deque_append_def Let_def len del: length_drop)
  also have "\<dots> = tl (drop (length xs - m) xs) @ [x]" using ne by simp
  also have "\<dots> = drop (Suc (length xs - m)) xs @ [x]" by (simp add: drop_Suc tl_drop)
  also have "\<dots> = drop (length (xs @ [x]) - m) (xs @ [x])"
    using False assms by (simp add: Suc_diff_le)
  finally show ?thesis .
qed

section \<open>Dwell start\<close>

text \<open>
  C7. After every call of \<open>calculate_risk\<close> for an identity, the dwell start
  \<^verbatim>\<open>first_danger_time\<close> of its profile is set if and only if the call was made with
  \<^verbatim>\<open>in_danger_zone\<close> true. A call outside every zone clears it, so when the next call
  for the identity is inside a zone again, the dwell start is the clock reading of
  that re-entry, whatever the earlier entry was, and the dwell-time factor is taken
  from the time elapsed since that reading (the next clock reading of the same call
  minus it).
\<close>

theorem dwell_start_tracks_zone:
  assumes "calculate_risk clk st pid cx cy dz zn zr sp po pr = (info, st')"
  shows "(\<exists>p'. st' pid = Some p' \<and> (first_danger_time p' \<noteq> None) = dz)
       \<and> (\<not> dz \<longrightarrow>
            (\<forall>clk2 cx2 cy2 zn2 zr2 sp2 po2 pr2 info2 st2.
               calculate_risk clk2 st' pid cx2 cy2 True zn2 zr2 sp2 po2 pr2 = (info2, st2)
               \<longrightarrow> map_option first_danger_time (st2 pid) = Some (Some (t_entry clk2))
                 \<and> map_of (factors info2) ''Time'' =
                     (if t_dwell clk2 - t_entry clk2 > 5 then Some 20
                      else if t_dwell clk2 - t_entry clk2 > 3 then Some 15
                      else if t_dwell clk2 - t_entry clk2 > 1 then Some 10
                      else None)))"
proof (intro conjI impI allI)
  note st' = calculate_risk_info(5) [OF assms]
  show "\<exists>p'. st' pid = Some p' \<and> (first_danger_time p' \<noteq> None) = dz"
    by (simp add: st' exit_profile_fields dwell_start_def)
  fix clk2 cx2 cy2 zn2 zr2 sp2 po2 pr2 info2 st2
  assume out: "\<not> dz"
    and again: "calculate_risk clk2 st' pid cx2 cy2 True zn2 zr2 sp2 po2 pr2 = (info2, st2)"
  let ?p = "entry_profile clk2 st' pid"
  have cleared: "first_danger_time ?p = None"
    using out by (simp add: first_danger_time_entry_profile st' exit_profile_fields dwell_start_def)
  show "map_option first_danger_time (st2 pid) = Some (Some (t_entry clk2))"
    by (simp add: calculate_risk_info(5) [OF again] exit_profile_fields dwell_start_def cleared)
  have "snd (dwell_factor clk2 True ?p) =
          (if t_dwell clk2 - t_entry clk2 > 5 then 20
           else if t_dwell clk2 - t_entry clk2 > 3 then 15
           else if t_dwell clk2 - t_entry clk2 > 1 then 10
           else 0)"
    by (simp add: dwell_factor_def Let_def cleared)
  then show "map_of (factors info2) ''Time'' =
                     (if t_dwell clk2 - t_entry clk2 > 5 then Some 20
                      else if t_dwell clk2 - t_entry clk2 > 3 then Some 15
                      else if t_dwell clk2 - t_entry clk2 > 1 then Some 10
                      else None)"
    by (simp add: calculate_risk_info(2) [OF again] map_of_build_factors_Time)
qed

text \<open>
  The identity of \<open>dwelling_store\<close>, in the zone since 1000, leaves it at 1006 and is
  back at 1010: the dwell start is 1010 and there is no dwell-time factor.
\<close>

theorem dwell_start_tracks_zone_witness:
  "map_option first_danger_time
     (snd (calculate_risk (clock_at 1010)
             (snd (calculate_risk (clock_at 1006) dwelling_store 7 950 500 False ''SAFE'' 0 0
                     ''STANDING'' 0))
             7 600 500 True ''HEAVY_MACHINERY'' 40 0 ''STANDING'' 0) 7) = Some (Some 1010)
   \<and> map_of (factors (fst (calculate_risk (clock_at 1010)
             (snd (calculate_risk (clock_at 1006) dwelling_store 7 950 500 False ''SAFE'' 0 0
                     ''STANDING'' 0))
             7 600 500 True ''HEAVY_MACHINERY'' 40 0 ''STANDING'' 0))) ''Time'' = None"
proof -
  let ?r1 = "calculate_risk (clock_at 1006) dwelling_store 7 950 500 False ''SAFE'' 0 0
               ''STANDING'' 0"
  let ?r2 = "calculate_risk (clock_at 1010) (snd ?r1) 7 600 500 True ''HEAVY_MACHINERY'' 40 0
               ''STANDING'' 0"
  have c1: "?r1 = (fst ?r1, snd ?r1)" and c2: "?r2 = (fst ?r2, snd ?r2)" by simp_all
  from dwell_start_tracks_zone [OF c1] c2
  have "map_option first_danger_time (snd ?r2 7) = Some (Some (t_entry (clock_at 1010)))
        \<and> map_of (factors (fst ?r2)) ''Time'' =
                     (if t_dwell (clock_at 1010) - t_entry (clock_at 1010) > 5 then Some 20
                      else if t_dwell (clock_at 1010) - t_entry (clock_at 1010) > 3 then Some 15
                      else if t_dwell (clock_at 1010) - t_entry (clock_at 1010) > 1 then Some 10
                      else None)"
    by blast
  then show ?thesis by (simp add: clock_at_def)
qed

section \<open>Trend\<close>

text \<open>
  C9. In every call of \<open>calculate_risk\<close> the new score is appended to the stored scores
  and the trend is read off the stored scores including it. With at least three
  stored scores the returned string is the upwards arrow and \<^verbatim>\<open>INCREASING\<close> if the
  newest score exceeds the third-newest by more than 10, the downwards arrow and
  \<^verbatim>\<open>DECREASING\<close> if it is below it by more than 10, and otherwise the rightwards arrow
  and \<^verbatim>\<open>STABLE\<close>; with fewer than three it is the plain \<^verbatim>\<open>STABLE\<close>. So the label of the
  trend, the returned string without the arrow and the space that precede it when
  there are three scores, is one of \<^verbatim>\<open>INCREASING\<close>, \<^verbatim>\<open>DECREASING\<close> and \<^verbatim>\<open>STABLE\<close>.
\<close>

theorem trend_of_last_three_scores:
  assumes "calculate_risk clk st pid cx cy dz zn zr sp po pr = (info, st')"
    and "before = (case st pid of None \<Rightarrow> [] | Some p \<Rightarrow> risk_scores p)"
    and "stored = deque_append 100 before (score info)"
  shows "map_option risk_scores (st' pid) = Some stored
       \<and> last stored = score info
       \<and> trend info =
           (if length stored \<ge> 3 then
              (if last stored > stored ! (length stored - 3) + 10
               then CHR 0xE2 # CHR 0x86 # CHR 0x91 # '' INCREASING''
               else if last stored < stored ! (length stored - 3) - 10
               then CHR 0xE2 # CHR 0x86 # CHR 0x93 # '' DECREASING''
               else CHR 0xE2 # CHR 0x86 # CHR 0x92 # '' STABLE'')
            else ''STABLE'')
       \<and> (if length stored \<ge> 3 then drop 4 (trend info) else trend info) =
           (if length stored \<ge> 3 \<and> last stored > stored ! (length stored - 3) + 10
            then ''INCREASING''
            else if length stored \<ge> 3 \<and> last stored < stored ! (length stored - 3) - 10
            then ''DECREASING''
            else ''STABLE'')
       \<and> (if length stored \<ge> 3 then drop 4 (trend info) else trend info)
             \<in> {''INCREASING'', ''DECREASING'', ''STABLE''}"
proof -
  have before: "risk_scores (entry_profile clk st pid) = before"
    by (simp add: risk_scores_entry_profile assms(2))
  have st: "map_option risk_scores (st' pid) = Some stored"
    by (simp add: calculate_risk_info(5) [OF assms(1)] exit_profile_fields before assms(3)
          calculate_risk_info(1) [OF assms(1)])
  have l: "last stored = score info"
    by (simp add: assms(3) last_deque_append)
  have t: "trend info = trend_of stored"
    by (simp add: calculate_risk_info(3) [OF assms(1)] before assms(3))
  have r: "trend_of stored =
           (if length stored \<ge> 3 then
              (if last stored > stored ! (length stored - 3) + 10
               then CHR 0xE2 # CHR 0x86 # CHR 0x91 # '' INCREASING''
               else if last stored < stored ! (length stored - 3) - 10
               then CHR 0xE2 # CHR 0x86 # CHR 0x93 # '' DECREASING''
               else CHR 0xE2 # CHR 0x86 # CHR 0x92 # '' STABLE'')
            else ''STABLE'')"
  proof (cases "length stored \<ge> 3")
    case True
    then have "stored \<noteq> []" by auto
    then have newest: "last stored = stored ! (length stored - 1)" by (rule last_conv_nth)
    have "length stored - 3 + 2 = length stored - 1" using True by simp
    then have r2: "drop (length stored - 3) stored ! 2 = stored ! (length stored - 1)"
      using True by (simp add: nth_drop del: One_nat_def)
    have r0: "drop (length stored - 3) stored ! 0 = stored ! (length stored - 3)"
      using True by (simp add: nth_drop)
    show ?thesis
      unfolding trend_of_def Let_def r2 r0 newest using True by simp
  next
    case False
    then show ?thesis by (simp add: trend_of_def)
  qed
  have tr: "trend info =
           (if length stored \<ge> 3 then
              (if last stored > stored ! (length stored - 3) + 10
               then CHR 0xE2 # CHR 0x86 # CHR 0x91 # '' INCREASING''
               else if last stored < stored ! (length stored - 3) - 10
               then CHR 0xE2 # CHR 0x86 # CHR 0x93 # '' DECREASING''
               else CHR 0xE2 # CHR 0x86 # CHR 0x92 # '' STABLE'')
            else ''STABLE'')"
    by (simp only: t r)
  have label: "(if length stored \<ge> 3 then drop 4 (trend info) else trend info) =
           (if length stored \<ge> 3 \<and> last stored > stored ! (length stored - 3) + 10
            then ''INCREASING''
            else if length stored \<ge> 3 \<and> last stored < stored ! (length stored - 3) - 10
            then ''DECREASING''
            else ''STABLE'')"
    unfolding tr by simp
  have range: "(if length stored \<ge> 3 then drop 4 (trend info) else trend info)
                 \<in> {''INCREASING'', ''DECREASING'', ''STABLE''}"
    unfolding label by simp
  from st l tr label range show ?thesis by blast
qed

text \<open>
  On \<open>dwelling_store\<close>, whose stored scores are 40 and 55: a call scoring 60 is
  INCREASING, a call outside every zone scoring 0 is DECREASING, and a call at the
  instant 1002 scoring 50 is STABLE, each with its arrow.
\<close>

theorem trend_of_last_three_scores_witness:
  "trend (fst (calculate_risk (clock_at 1006) dwelling_store 7 600 500 True
                 ''HEAVY_MACHINERY'' 40 0 ''STANDING'' 0))
     = CHR 0xE2 # CHR 0x86 # CHR 0x91 # '' INCREASING''
   \<and> map_option risk_scores (snd (calculate_risk (clock_at 1006) dwelling_store 7 600 500 True
                 ''HEAVY_MACHINERY'' 40 0 ''STANDING'' 0) 7) = Some [40, 55, 60]
   \<and> trend (fst (calculate_risk (clock_at 1006) dwelling_store 7 950 500 False
                 ''SAFE'' 0 0 ''STANDING'' 0))
     = CHR 0xE2 # CHR 0x86 # CHR 0x93 # '' DECREASING''
   \<and> trend (fst (calculate_risk (clock_at 1002) dwelling_store 7 600 500 True
                 ''HEAVY_MACHINERY'' 40 0 ''STANDING'' 0))
     = CHR 0xE2 # CHR 0x86 # CHR 0x92 # '' STABLE''"
proof -
  let ?up = "calculate_risk (clock_at 1006) dwelling_store 7 600 500 True
               ''HEAVY_MACHINERY'' 40 0 ''STANDING'' 0"
  let ?down = "calculate_risk (clock_at 1006) dwelling_store 7 950 500 False
                 ''SAFE'' 0 0 ''STANDING'' 0"
  let ?level = "calculate_risk (clock_at 1002) dwelling_store 7 600 500 True
                  ''HEAVY_MACHINERY'' 40 0 ''STANDING'' 0"
  have before: "[40, 55] = (case dwelling_store 7 of None \<Rightarrow> [] | Some p \<Rightarrow> risk_scores p)"
    by (simp add: dwelling_store_eq)
  have up: "?up = (fst ?up, snd ?up)" and down: "?down = (fst ?down, snd ?down)"
    and level: "?level = (fst ?level, snd ?level)"
    by simp_all
  have sc_up: "score (fst ?up) = 60"
    by (simp add: dwelling_store_eq risk_eval)
  have sc_down: "score (fst ?down) = 0"
    by (simp add: dwelling_store_eq risk_eval)
  have sc_level: "score (fst ?level) = 50"
    by (simp add: dwelling_store_eq risk_eval)
  have st_up: "[40, 55, 60] = deque_append 100 [40, 55] (score (fst ?up))"
    by (simp add: sc_up deque_append_def)
  have st_down: "[40, 55, 0] = deque_append 100 [40, 55] (score (fst ?down))"
    by (simp add: sc_down deque_append_def)
  have st_level: "[40, 55, 50] = deque_append 100 [40, 55] (score (fst ?level))"
    by (simp add: sc_level deque_append_def)
  from trend_of_last_three_scores [OF up before st_up]
  have a: "trend (fst ?up) = CHR 0xE2 # CHR 0x86 # CHR 0x91 # '' INCREASING''
           \<and> map_option risk_scores (snd ?up 7) = Some [40, 55, 60]"
    by simp
  from trend_of_last_three_scores [OF down before st_down]
  have b: "trend (fst ?down) = CHR 0xE2 # CHR 0x86 # CHR 0x93 # '' DECREASING''"
    by simp
  from trend_of_last_three_scores [OF level before st_level]
  have c: "trend (fst ?level) = CHR 0xE2 # CHR 0x86 # CHR 0x92 # '' STABLE''"
    by simp
  from a b c show ?thesis by blast
qed

section \<open>Zone classification\<close>

lemma zone_no_match:
  "\<forall>z \<in> set zs. ppt (z_coords (snd z)) (cx, cy) < 0
    \<Longrightarrow> is_person_in_danger_zone ppt zs cx cy = (False, ''SAFE'', 0)"
  by (induction zs) (auto simp: Let_def)

lemma zone_first_match:
  assumes "i < length zs"
    and "ppt (z_coords (snd (zs ! i))) (cx, cy) \<ge> 0"
    and "\<forall>j < i. ppt (z_coords (snd (zs ! j))) (cx, cy) < 0"
  shows "is_person_in_danger_zone ppt zs cx cy
           = (True, fst (zs ! i), z_risk (snd (zs ! i)))"
  using assms
proof (induction zs arbitrary: i)
  case Nil
  then show ?case by simp
next
  case (Cons z zs)
  obtain zone_name zone_info where z: "z = (zone_name, zone_info)" by (cases z)
  show ?case
  proof (cases i)
    case 0
    with Cons.prems z show ?thesis by (simp add: Let_def)
  next
    case (Suc k)
    with Cons.prems have first: "ppt (z_coords zone_info) (cx, cy) < 0"
      using z by auto
    have k: "k < length zs" using Cons.prems(1) Suc by simp
    have kk: "ppt (z_coords (snd (zs ! k))) (cx, cy) \<ge> 0" using Cons.prems(2) Suc by simp
    have kj: "\<forall>j < k. ppt (z_coords (snd (zs ! j))) (cx, cy) < 0"
      using Cons.prems(3) Suc by auto
    from Cons.IH [OF k kk kj] first z Suc show ?thesis
      by (simp add: Let_def)
  qed
qed

text \<open>
  C2. For every point and every ordered configuration of zones, with \<open>ppt\<close> the
  point-in-polygon test (positive inside, zero on the boundary, negative outside):
  the classification returns \<open>(True, name, risk)\<close> of the first zone in declaration
  order whose test is not negative, so a boundary point counts as inside; if every
  test is negative it returns \<open>(False, SAFE, 0)\<close>; and where two zones contain the
  point, the earlier one is returned even when the later one has the higher risk.
\<close>

theorem zone_classification_first_match:
  "(\<forall>i < length zs.
       ppt (z_coords (snd (zs ! i))) (cx, cy) \<ge> 0
       \<and> (\<forall>j < i. ppt (z_coords (snd (zs ! j))) (cx, cy) < 0)
       \<longrightarrow> is_person_in_danger_zone ppt zs cx cy
             = (True, fst (zs ! i), z_risk (snd (zs ! i))))
   \<and> ((\<forall>i < length zs. ppt (z_coords (snd (zs ! i))) (cx, cy) < 0)
       \<longrightarrow> is_person_in_danger_zone ppt zs cx cy = (False, ''SAFE'', 0))
   \<and> (\<forall>a b rest. ppt (z_coords (snd a)) (cx, cy) \<ge> 0 \<and> ppt (z_coords (snd b)) (cx, cy) \<ge> 0
          \<and> z_risk (snd a) < z_risk (snd b)
       \<longrightarrow> is_person_in_danger_zone ppt (a # b # rest) cx cy = (True, fst a, z_risk (snd a)))"
proof (intro conjI allI impI)
  fix i
  assume "i < length zs"
    and "ppt (z_coords (snd (zs ! i))) (cx, cy) \<ge> 0
           \<and> (\<forall>j < i. ppt (z_coords (snd (zs ! j))) (cx, cy) < 0)"
  then show "is_person_in_danger_zone ppt zs cx cy
               = (True, fst (zs ! i), z_risk (snd (zs ! i)))"
    by (simp add: zone_first_match)
next
  assume "\<forall>i < length zs. ppt (z_coords (snd (zs ! i))) (cx, cy) < 0"
  then have "\<forall>z \<in> set zs. ppt (z_coords (snd z)) (cx, cy) < 0"
    by (metis in_set_conv_nth)
  then show "is_person_in_danger_zone ppt zs cx cy = (False, ''SAFE'', 0)"
    by (rule zone_no_match)
next
  fix a b :: "string \<times> zone_info" and rest
  assume "ppt (z_coords (snd a)) (cx, cy) \<ge> 0 \<and> ppt (z_coords (snd b)) (cx, cy) \<ge> 0
          \<and> z_risk (snd a) < z_risk (snd b)"
  then show "is_person_in_danger_zone ppt (a # b # rest) cx cy = (True, fst a, z_risk (snd a))"
    by (cases a) (simp add: Let_def)
qed

text \<open>
  On \<open>DANGER_ZONES\<close> with the ray-casting test: a point inside ELECTRICAL only, a
  corner of HEAVY\_MACHINERY, a point outside every zone, and a point in the overlap
  of two zones when the zone of lower risk is declared first.
\<close>

theorem zone_classification_first_match_witness:
  "is_person_in_danger_zone pointPolygonTest DANGER_ZONES 600 160 = (True, ''ELECTRICAL'', 35)
   \<and> is_person_in_danger_zone pointPolygonTest DANGER_ZONES 300 200
         = (True, ''HEAVY_MACHINERY'', 40)
   \<and> is_person_in_danger_zone pointPolygonTest DANGER_ZONES 0 0 = (False, ''SAFE'', 0)
   \<and> is_person_in_danger_zone pointPolygonTest [DANGER_ZONES ! 1, DANGER_ZONES ! 0] 600 300
         = (True, ''ELECTRICAL'', 35)"
proof -
  note ev = DANGER_ZONES_def pointPolygonTest_def
  have "(1::nat) < length DANGER_ZONES
        \<and> pointPolygonTest (z_coords (snd (DANGER_ZONES ! 1))) (600, 160) \<ge> 0
        \<and> (\<forall>j < 1. pointPolygonTest (z_coords (snd (DANGER_ZONES ! j))) (600, 160) < 0)"
    by (simp add: ev)
  with zone_classification_first_match [of DANGER_ZONES pointPolygonTest 600 160]
  have "is_person_in_danger_zone pointPolygonTest DANGER_ZONES 600 160
          = (True, fst (DANGER_ZONES ! 1), z_risk (snd (DANGER_ZONES ! 1)))"
    by blast
  then have inner: "is_person_in_danger_zone pointPolygonTest DANGER_ZONES 600 160
                      = (True, ''ELECTRICAL'', 35)"
    by (simp add: DANGER_ZONES_def)
  have "(0::nat) < length DANGER_ZONES
        \<and> pointPolygonTest (z_coords (snd (DANGER_ZONES ! 0))) (300, 200) \<ge> 0
        \<and> (\<forall>j < 0. pointPolygonTest (z_coords (snd (DANGER_ZONES ! j))) (300, 200) < 0)"
    by (simp add: ev)
  with zone_classification_first_match [of DANGER_ZONES pointPolygonTest 300 200]
  have "is_person_in_danger_zone pointPolygonTest DANGER_ZONES 300 200
          = (True, fst (DANGER_ZONES ! 0), z_risk (snd (DANGER_ZONES ! 0)))"
    by blast
  then have corner: "is_person_in_danger_zone pointPolygonTest DANGER_ZONES 300 200
                       = (True, ''HEAVY_MACHINERY'', 40)"
    by (simp add: DANGER_ZONES_def)
  have "\<forall>i < length DANGER_ZONES.
          pointPolygonTest (z_coords (snd (DANGER_ZONES ! i))) (0, 0) < 0"
    by (simp add: ev All_less_Suc)
  with zone_classification_first_match [of DANGER_ZONES pointPolygonTest 0 0]
  have outside: "is_person_in_danger_zone pointPolygonTest DANGER_ZONES 0 0 = (False, ''SAFE'', 0)"
    by blast
  have "pointPolygonTest (z_coords (snd (DANGER_ZONES ! 1))) (600, 300) \<ge> 0
        \<and> pointPolygonTest (z_coords (snd (DANGER_ZONES ! 0))) (600, 300) \<ge> 0
        \<and> z_risk (snd (DANGER_ZONES ! 1)) < z_risk (snd (DANGER_ZONES ! 0))"
    by (simp add: ev)
  with zone_classification_first_match [of DANGER_ZONES pointPolygonTest 600 300]
  have "is_person_in_danger_zone pointPolygonTest [DANGER_ZONES ! 1, DANGER_ZONES ! 0] 600 300
          = (True, fst (DANGER_ZONES ! 1), z_risk (snd (DANGER_ZONES ! 1)))"
    by blast
  then have overlap: "is_person_in_danger_zone pointPolygonTest
                        [DANGER_ZONES ! 1, DANGER_ZONES ! 0] 600 300 = (True, ''ELECTRICAL'', 35)"
    by (simp add: DANGER_ZONES_def)
  from inner corner outside overlap show ?thesis by blast
qed

section \<open>Alert throttle\<close>

lemma frame_step_eq:
  "frame_step st f =
     (if critical_people_of (snd f) \<noteq> [] \<and> fst f - last_alert_time st > 1
      then st\<lparr>total_alerts := total_alerts st + 1, last_alert_time := fst f\<rparr>
      else st)"
  by (simp add: frame_step_def handle_critical_alerts_def)

lemma alert_log_spaced:
  "sorted_wrt (\<lambda>a b. b - a > 1) (alert_log st fs)
   \<and> (\<forall>a \<in> set (alert_log st fs). a - last_alert_time st > 1)"
proof (induction fs arbitrary: st)
  case Nil
  show ?case by simp
next
  case (Cons f fs)
  show ?case
  proof (cases "critical_people_of (snd f) \<noteq> [] \<and> fst f - last_alert_time st > 1")
    case True
    then have step: "frame_step st f = st\<lparr>total_alerts := total_alerts st + 1, last_alert_time := fst f\<rparr>"
      by (simp add: frame_step_eq)
    from Cons.IH [of "frame_step st f"]
    have ih: "sorted_wrt (\<lambda>a b. b - a > 1) (alert_log (frame_step st f) fs)"
      and after: "\<forall>a \<in> set (alert_log (frame_step st f) fs). a - fst f > 1"
      by (simp_all add: step)
    have log: "alert_log st (f # fs) = fst f # alert_log (frame_step st f) fs"
      by (simp add: Let_def step)
    from True after have "\<forall>a \<in> set (alert_log (frame_step st f) fs). a - last_alert_time st > 1"
      by fastforce
    with True ih after show ?thesis
      unfolding log by simp
  next
    case False
    then have step: "frame_step st f = st" by (simp add: frame_step_eq)
    then have "alert_log st (f # fs) = alert_log st fs" by (simp add: Let_def)
    with Cons.IH [of st] show ?thesis by simp
  qed
qed

lemma total_alerts_run_frames:
  "total_alerts (run_frames st fs) = total_alerts st + length (alert_log st fs)"
proof (induction fs arbitrary: st)
  case Nil
  show ?case by (simp add: run_frames_def)
next
  case (Cons f fs)
  have "run_frames st (f # fs) = run_frames (frame_step st f) fs"
    by (simp add: run_frames_def)
  with Cons.IH [of "frame_step st f"] show ?case
    by (simp add: Let_def frame_step_eq)
qed

lemma critical_people_nonempty:
  "critical_people_of scored \<noteq> [] \<longleftrightarrow> (\<exists>(track_id, risk_score) \<in> set scored. risk_score > 70)"
  by (auto simp: critical_people_of_def filter_empty_conv)

lemma frame_step_threshold:
  "frame_step st f =
     (if (\<exists>(track_id, risk_score) \<in> set (snd f). risk_score > 70)
         \<and> fst f - last_alert_time st > 1
      then st\<lparr>total_alerts := total_alerts st + 1, last_alert_time := fst f\<rparr>
      else st)"
  unfolding frame_step_eq critical_people_nonempty ..

lemma alert_log_frames:
  "a \<in> set (alert_log st fs) \<Longrightarrow>
     \<exists>f \<in> set fs. fst f = a \<and> (\<exists>(track_id, risk_score) \<in> set (snd f). risk_score > 70)"
proof (induction fs arbitrary: st)
  case Nil
  then show ?case by simp
next
  case (Cons f fs)
  show ?case
  proof (cases "a \<in> set (alert_log (frame_step st f) fs)")
    case True
    from Cons.IH [OF True] show ?thesis by auto
  next
    case False
    with Cons.prems have "total_alerts (frame_step st f) \<noteq> total_alerts st" and "a = fst f"
      by (auto simp: Let_def split: if_splits)
    then have "\<exists>(track_id, risk_score) \<in> set (snd f). risk_score > 70"
      by (auto simp: frame_step_threshold split: if_splits)
    with \<open>a = fst f\<close> show ?thesis by auto
  qed
qed

text \<open>
  C8. On every frame the alert counter is incremented (by one, and the frame's clock
  reading recorded as the last alert time) exactly when some identity of the frame
  has a score above 70 and more than 1 second has passed since the last recorded
  alert, however many identities qualify; a frame whose identities all score 70 or
  less changes nothing. Hence over every sequence of frames every increment is on a
  frame with an identity above 70, any two increments are more than 1 second apart,
  and the counter grows by the number of increments. Three frames at \<open>t\<close>, \<open>t + 0.3\<close>
  and \<open>t + 1.2\<close>, each with an identity above 70 and the first of them past the
  cooldown, increment the counter once, not again, and a second time.
\<close>

theorem alert_throttle:
  fixes f :: "'id frame" and fs :: "'id frame list"
  shows "critical_people_of (snd f) = filter (\<lambda>(track_id, risk_score). risk_score > 70) (snd f)
   \<and> frame_step st f =
     (if (\<exists>(track_id, risk_score) \<in> set (snd f). risk_score > 70)
         \<and> fst f - last_alert_time st > 1
      then st\<lparr>total_alerts := total_alerts st + 1, last_alert_time := fst f\<rparr>
      else st)
   \<and> ((\<forall>(track_id, risk_score) \<in> set (snd f). risk_score \<le> 70) \<longrightarrow> frame_step st f = st)
   \<and> (\<forall>a \<in> set (alert_log st fs).
         \<exists>g \<in> set fs. fst g = a \<and> (\<exists>(track_id, risk_score) \<in> set (snd g). risk_score > 70))
   \<and> sorted_wrt (\<lambda>a b. b - a > 1) (alert_log st fs)
   \<and> total_alerts (run_frames st fs) = total_alerts st + length (alert_log st fs)
   \<and> (\<forall>t (c1 :: ('id \<times> int) list) c2 c3.
          t - last_alert_time st > 1
          \<and> (\<exists>(track_id, risk_score) \<in> set c1. risk_score > 70)
          \<and> (\<exists>(track_id, risk_score) \<in> set c2. risk_score > 70)
          \<and> (\<exists>(track_id, risk_score) \<in> set c3. risk_score > 70)
        \<longrightarrow> total_alerts (run_frames st [(t, c1)]) = total_alerts st + 1
          \<and> total_alerts (run_frames st [(t, c1), (t + 0.3, c2)]) = total_alerts st + 1
          \<and> total_alerts (run_frames st [(t, c1), (t + 0.3, c2), (t + 1.2, c3)])
              = total_alerts st + 2)"
proof (intro conjI allI impI ballI)
  show "critical_people_of (snd f) = filter (\<lambda>(track_id, risk_score). risk_score > 70) (snd f)"
    by (simp add: critical_people_of_def)
  show "frame_step st f =
     (if (\<exists>(track_id, risk_score) \<in> set (snd f). risk_score > 70)
         \<and> fst f - last_alert_time st > 1
      then st\<lparr>total_alerts := total_alerts st + 1, last_alert_time := fst f\<rparr>
      else st)"
    by (rule frame_step_threshold)
  show "frame_step st f = st" if "\<forall>(track_id, risk_score) \<in> set (snd f). risk_score \<le> 70"
    using that by (fastforce simp: frame_step_threshold)
  show "\<exists>g \<in> set fs. fst g = a \<and> (\<exists>(track_id, risk_score) \<in> set (snd g). risk_score > 70)"
    if "a \<in> set (alert_log st fs)" for a
    using that by (rule alert_log_frames)
  show "sorted_wrt (\<lambda>a b. b - a > 1) (alert_log st fs)"
    using alert_log_spaced [of st fs] by blast
  show "total_alerts (run_frames st fs) = total_alerts st + length (alert_log st fs)"
    by (rule total_alerts_run_frames)
next
  fix t :: real and c1 c2 c3 :: "('id \<times> int) list"
  assume h: "t - last_alert_time st > 1
          \<and> (\<exists>(track_id, risk_score) \<in> set c1. risk_score > 70)
          \<and> (\<exists>(track_id, risk_score) \<in> set c2. risk_score > 70)
          \<and> (\<exists>(track_id, risk_score) \<in> set c3. risk_score > 70)"
  then have c: "critical_people_of c1 \<noteq> []" "critical_people_of c2 \<noteq> []"
      "critical_people_of c3 \<noteq> []" and t: "t - last_alert_time st > 1"
    by (simp_all add: critical_people_nonempty)
  from c t show "total_alerts (run_frames st [(t, c1)]) = total_alerts st + 1"
    and "total_alerts (run_frames st [(t, c1), (t + 0.3, c2)]) = total_alerts st + 1"
    and "total_alerts (run_frames st [(t, c1), (t + 0.3, c2), (t + 1.2, c3)]) = total_alerts st + 2"
    by (simp_all add: run_frames_def frame_step_eq)
qed

text \<open>
  From the initial alert state: frames at 1000, 1000.3 and 1001.2 with two, one and
  one identities above 70 give the counts 1, 1 and 2; a frame at 1000 whose
  identities score 70 and 30 leaves the alert state as it was, and a frame with one
  identity at 71 increments the counter.
\<close>

theorem alert_throttle_witness:
  "map total_alerts
     [run_frames alert_init [(1000, [(7::nat, 85), (8, 90)])],
      run_frames alert_init [(1000, [(7::nat, 85), (8, 90)]), (1000 + 0.3, [(7, 71)])],
      run_frames alert_init [(1000, [(7::nat, 85), (8, 90)]), (1000 + 0.3, [(7, 71)]),
                             (1000 + 1.2, [(8, 100), (7, 70)])]]
   = [1, 1, 2]
   \<and> frame_step alert_init (1000, [(7::nat, 70), (8, 30)]) = alert_init
   \<and> total_alerts (frame_step alert_init (1000, [(7::nat, 71), (8, 30)])) = 1"
proof -
  have "(1000::real) - last_alert_time alert_init > 1
        \<and> (\<exists>(track_id, risk_score) \<in> set [(7::nat, 85::int), (8, 90)]. risk_score > 70)
        \<and> (\<exists>(track_id, risk_score) \<in> set [(7::nat, 71::int)]. risk_score > 70)
        \<and> (\<exists>(track_id, risk_score) \<in> set [(8::nat, 100::int), (7, 70)]. risk_score > 70)"
    by (simp add: alert_init_def)
  with alert_throttle [where st = alert_init]
  have "total_alerts (run_frames alert_init [(1000, [(7::nat, 85), (8, 90)])])
          = total_alerts alert_init + 1
      \<and> total_alerts (run_frames alert_init [(1000, [(7::nat, 85), (8, 90)]), (1000 + 0.3, [(7, 71)])])
          = total_alerts alert_init + 1
      \<and> total_alerts (run_frames alert_init [(1000, [(7::nat, 85), (8, 90)]), (1000 + 0.3, [(7, 71)]),
                             (1000 + 1.2, [(8, 100), (7, 70)])])
          = total_alerts alert_init + 2"
    by blast
  then have counts: "map total_alerts
     [run_frames alert_init [(1000, [(7::nat, 85), (8, 90)])],
      run_frames alert_init [(1000, [(7::nat, 85), (8, 90)]), (1000 + 0.3, [(7, 71)])],
      run_frames alert_init [(1000, [(7::nat, 85), (8, 90)]), (1000 + 0.3, [(7, 71)]),
                             (1000 + 1.2, [(8, 100), (7, 70)])]]
     = [1, 1, 2]"
    by (simp add: alert_init_def)
  have "\<forall>(track_id, risk_score) \<in> set (snd (1000::real, [(7::nat, 70::int), (8, 30)])). risk_score \<le> 70"
    by simp
  with alert_throttle [where st = alert_init and f = "(1000, [(7::nat, 70), (8, 30)])"]
  have quiet: "frame_step alert_init (1000, [(7::nat, 70), (8, 30)]) = alert_init"
    by blast
  have "(\<exists>(track_id, risk_score) \<in> set (snd (1000::real, [(7::nat, 71::int), (8, 30)])). risk_score > 70)
        \<and> fst (1000::real, [(7::nat, 71), (8, 30)]) - last_alert_time alert_init > 1"
    by (simp add: alert_init_def)
  with alert_throttle [where st = alert_init and f = "(1000, [(7::nat, 71), (8, 30)])"]
  have "frame_step alert_init (1000, [(7::nat, 71), (8, 30)])
          = alert_init\<lparr>total_alerts := total_alerts alert_init + 1,
                        last_alert_time := fst (1000::real, [(7::nat, 71), (8, 30)])\<rparr>"
    by simp
  then have loud: "total_alerts (frame_step alert_init (1000, [(7::nat, 71), (8, 30)])) = 1"
    by (simp add: alert_init_def)
  from counts quiet loud show ?thesis by blast
qed

section \<open>Speed estimation\<close>

lemma index_from_end_snoc2:
  "index_from_end (zs @ [a, b]) (Suc 0) = Inr b"
  "index_from_end (zs @ [a, b]) 2 = Inr a"
  by (simp_all add: index_from_end_def nth_append)

lemma speed_of_hist_snoc2:
  "speed_of_hist \<lparr>h_positions = zs @ [(px, py), (cx, cy)], h_times = ws @ [t0, t], h_speed = s\<rparr>
     = Inr (if t - t0 > 0
            then sqrt (real_of_int ((cx - px)\<^sup>2 + (cy - py)\<^sup>2)) / (t - t0)
            else 0)"
  by (simp add: speed_of_hist_def index_from_end_snoc2 float_div_def Let_def)

lemma trim_keeps_last_two:
  assumes "xs \<noteq> []"
  shows "\<exists>zs. (if length (xs @ [x]) > 10 then tl (xs @ [x]) else xs @ [x]) = zs @ [last xs, x]"
proof -
  from assms obtain ys y where xs: "xs = ys @ [y]" by (metis rev_exhaust)
  show ?thesis
  proof (cases "length (xs @ [x]) > 10")
    case True
    then have "ys \<noteq> []" using xs by auto
    with True
    have "(if length (xs @ [x]) > 10 then tl (xs @ [x]) else xs @ [x]) = tl ys @ [last xs, x]"
      by (simp add: xs)
    then show ?thesis ..
  next
    case False
    then have "(if length (xs @ [x]) > 10 then tl (xs @ [x]) else xs @ [x]) = ys @ [last xs, x]"
      by (simp add: xs)
    then show ?thesis ..
  qed
qed

text \<open>
  C5. For every identity whose stored positions and timestamps are aligned (as they
  are in the empty dictionary and after every call), \<open>calculate_speed\<close> never fails:
  it appends the new position and timestamp to the identity's history (dropping the
  oldest entry beyond 10) and returns the Euclidean distance between the two most
  recent positions divided by the time elapsed between their timestamps when that
  time is positive; it returns 0 when there is no earlier observation or when the
  elapsed time is zero or negative, so the division is only reached with a positive
  divisor.
\<close>

theorem calculate_speed_guarded:
  assumes "h_old = (case position_history pid of
                   None \<Rightarrow> \<lparr>h_positions = [], h_times = [], h_speed = 0\<rparr> | Some h \<Rightarrow> h)"
    and "length (h_times h_old) = length (h_positions h_old)"
    and "speed =
           (if h_positions h_old = [] then 0
            else if current_time - last (h_times h_old) > 0
            then sqrt (real_of_int ((cx - fst (last (h_positions h_old)))\<^sup>2
                                     + (cy - snd (last (h_positions h_old)))\<^sup>2))
                   / (current_time - last (h_times h_old))
            else 0)"
    and "h_new = \<lparr>h_positions = (if length (h_positions h_old @ [(cx, cy)]) > 10
                              then tl (h_positions h_old @ [(cx, cy)])
                              else h_positions h_old @ [(cx, cy)]),
               h_times = (if length (h_times h_old @ [current_time]) > 10
                          then tl (h_times h_old @ [current_time])
                          else h_times h_old @ [current_time]),
               h_speed = speed\<rparr>"
  shows "calculate_speed position_history pid cx cy current_time
           = Inr (speed, position_history(pid \<mapsto> h_new))
       \<and> last (h_positions h_new) = (cx, cy) \<and> last (h_times h_new) = current_time
       \<and> length (h_times h_new) = length (h_positions h_new)"
proof -
  let ?P = "if length (h_positions h_old @ [(cx, cy)]) > 10
            then tl (h_positions h_old @ [(cx, cy)]) else h_positions h_old @ [(cx, cy)]"
  let ?T = "if length (h_times h_old @ [current_time]) > 10
            then tl (h_times h_old @ [current_time]) else h_times h_old @ [current_time]"
  let ?h = "\<lparr>h_positions = ?P, h_times = ?T, h_speed = h_speed h_old\<rparr>"
  obtain P0 T0 s0 where h_old: "h_old = \<lparr>h_positions = P0, h_times = T0, h_speed = s0\<rparr>"
    by (cases h_old)
  have unfold: "calculate_speed position_history pid cx cy current_time =
          (case speed_of_hist ?h of
             Inl e \<Rightarrow> Inl e
           | Inr speed \<Rightarrow> Inr (speed, position_history(pid \<mapsto> ?h\<lparr>h_speed := speed\<rparr>)))"
    using assms(2)
    by (simp add: calculate_speed_def Let_def assms(1) [symmetric] h_old cong del: sum.case_cong_weak)
  have sp: "speed_of_hist ?h = Inr speed"
  proof (cases "h_positions h_old = []")
    case True
    with assms(2) have "h_times h_old = []" by simp
    with True show ?thesis by (simp add: speed_of_hist_def assms(3))
  next
    case False
    with assms(2) have ne: "h_times h_old \<noteq> []" by auto
    obtain zs where P: "?P = zs @ [last (h_positions h_old), (cx, cy)]"
      using trim_keeps_last_two [OF False] by blast
    obtain ws where T: "?T = ws @ [last (h_times h_old), current_time]"
      using trim_keeps_last_two [OF ne] by blast
    obtain px py where l: "last (h_positions h_old) = (px, py)" by (cases "last (h_positions h_old)")
    have "speed_of_hist ?h =
            speed_of_hist \<lparr>h_positions = zs @ [(px, py), (cx, cy)],
                           h_times = ws @ [last (h_times h_old), current_time],
                           h_speed = h_speed h_old\<rparr>"
      by (simp only: P T l)
    also have "\<dots> = Inr speed"
      using False by (simp only: speed_of_hist_snoc2) (simp add: assms(3) l)
    finally show ?thesis .
  qed
  have call: "calculate_speed position_history pid cx cy current_time
                = Inr (speed, position_history(pid \<mapsto> h_new))"
    by (simp only: unfold sp sum.case) (simp add: assms(4))
  have lp: "last (h_positions h_new) = (cx, cy)"
    by (cases "h_positions h_old") (simp_all add: assms(4))
  have lt: "last (h_times h_new) = current_time"
    by (cases "h_times h_old") (simp_all add: assms(4))
  have len: "length (h_times h_new) = length (h_positions h_new)"
    using assms(2) by (simp add: assms(4))
  from call lp lt len show ?thesis by blast
qed

text \<open>
  From \<open>(0, 0)\<close> at 1000 to \<open>(3, 4)\<close> at 1002 the speed is 5 / 2; with the same
  timestamp it is 0; and so is the speed of a first observation.
\<close>

theorem calculate_speed_guarded_witness:
  "calculate_speed [7 \<mapsto> \<lparr>h_positions = [(0, 0)], h_times = [1000], h_speed = 0\<rparr>] (7::nat) 3 4 1002
     = Inr (5 / 2, [7 \<mapsto> \<lparr>h_positions = [(0, 0), (3, 4)], h_times = [1000, 1002], h_speed = 5 / 2\<rparr>])
   \<and> calculate_speed [7 \<mapsto> \<lparr>h_positions = [(0, 0)], h_times = [1000], h_speed = 0\<rparr>] (7::nat) 3 4 1000
     = Inr (0, [7 \<mapsto> \<lparr>h_positions = [(0, 0), (3, 4)], h_times = [1000, 1000], h_speed = 0\<rparr>])
   \<and> calculate_speed Map.empty (7::nat) 3 4 1000
     = Inr (0, [7 \<mapsto> \<lparr>h_positions = [(3, 4)], h_times = [1000], h_speed = 0\<rparr>])"
proof -
  let ?h0 = "\<lparr>h_positions = [(0, 0)], h_times = [1000], h_speed = 0\<rparr>"
  let ?ph = "[7::nat \<mapsto> ?h0]"
  have sq: "sqrt 25 = 5"
    using real_sqrt_abs [of 5] by simp
  have a: "?h0 = (case ?ph 7 of None \<Rightarrow> \<lparr>h_positions = [], h_times = [], h_speed = 0\<rparr> | Some h \<Rightarrow> h)"
    and b: "length (h_times ?h0) = length (h_positions ?h0)"
    by simp_all
  have moving: "5 / 2 =
           (if h_positions ?h0 = [] then 0
            else if 1002 - last (h_times ?h0) > 0
            then sqrt (real_of_int ((3 - fst (last (h_positions ?h0)))\<^sup>2
                                     + (4 - snd (last (h_positions ?h0)))\<^sup>2))
                   / (1002 - last (h_times ?h0))
            else 0)"
    by (simp add: sq)
  have stalled: "0 =
           (if h_positions ?h0 = [] then 0
            else if 1000 - last (h_times ?h0) > 0
            then sqrt (real_of_int ((3 - fst (last (h_positions ?h0)))\<^sup>2
                                     + (4 - snd (last (h_positions ?h0)))\<^sup>2))
                   / (1000 - last (h_times ?h0))
            else 0)"
    by simp
  let ?e = "\<lparr>h_positions = [], h_times = [], h_speed = 0\<rparr>"
  have a': "?e = (case (Map.empty :: nat \<rightharpoonup> hist) 7 of None \<Rightarrow> ?e | Some h \<Rightarrow> h)"
    and b': "length (h_times ?e) = length (h_positions ?e)"
    and first: "0 =
           (if h_positions ?e = [] then 0
            else if 1000 - last (h_times ?e) > 0
            then sqrt (real_of_int ((3 - fst (last (h_positions ?e)))\<^sup>2
                                     + (4 - snd (last (h_positions ?e)))\<^sup>2))
                   / (1000 - last (h_times ?e))
            else 0)"
    by simp_all
  from calculate_speed_guarded
         [where h_old = ?h0 and position_history = ?ph and pid = 7 and speed = "5 / 2"
            and current_time = 1002 and cx = 3 and cy = 4, OF a b moving refl]
       calculate_speed_guarded
         [where h_old = ?h0 and position_history = ?ph and pid = 7 and speed = 0
            and current_time = 1000 and cx = 3 and cy = 4, OF a b stalled refl]
       calculate_speed_guarded
         [where h_old = ?e and position_history = Map.empty and pid = "7::nat" and speed = 0
            and current_time = 1000 and cx = 3 and cy = 4, OF a' b' first refl]
  show ?thesis by simp
qed


section \<open>Histories over a sequence of calls\<close>

lemma deque_append_kept: "deque_append 100 (kept xs) x = kept (xs @ [x])"
  using deque_append_drop [of 100 xs x] by (simp add: kept_def)

lemma length_kept: "length (kept xs) = min 100 (length xs)"
  by (simp add: kept_def)

lemma kept_Nil: "kept [] = []"
  by (simp add: kept_def)

lemma last_kept: "xs \<noteq> [] \<Longrightarrow> last (kept xs) = last xs"
  by (simp add: kept_def)

lemma length_run_calls: "length (fst (run_calls st cs)) = length cs"
  by (induction cs arbitrary: st) (simp_all add: case_prod_beta Let_def)

lemma calls_for_snoc:
  "length rs = length cs \<Longrightarrow>
     calls_for pid (cs @ [c]) (rs @ [r]) =
       calls_for pid cs rs @ (if c_pid c = pid then [(c, r)] else [])"
  by (simp add: calls_for_def)

lemma profile_tracks_init: "profile_tracks (PersonProfile_init pid now) []"
  by (simp add: profile_tracks_def PersonProfile_init_def kept_Nil)

lemma profile_tracks_step:
  assumes "profile_tracks p mine"
    and "calculate_risk clk st pid cx cy dz zn zr sp po pr = (r, st')"
    and "entry_profile clk st pid = p"
    and "c = \<lparr>c_clk = clk, c_pid = pid, c_cx = cx, c_cy = cy, c_in_danger_zone = dz,
              c_zone_name = zn, c_zone_risk = zr, c_speed = sp, c_posture = po,
              c_posture_risk = pr\<rparr>"
  shows "\<exists>p'. st' pid = Some p' \<and> profile_tracks p' (mine @ [(c, r)])"
proof -
  note info = calculate_risk_info [OF assms(2)]
  have sc: "score r = min 100 (factor_sum clk p cx dz zr sp pr)"
    by (simp add: info(1) assms(3))
  have "profile_tracks (exit_profile clk p cx cy dz zn zr sp pr) (mine @ [(c, r)])"
    using assms(1)
    by (simp add: profile_tracks_def exit_profile_fields deque_append_kept sc assms(4))
  then show ?thesis by (simp add: info(5) assms(3))
qed

lemma run_calls_tracks:
  "(\<forall>pid. case snd (run_calls Map.empty cs) pid of
            None \<Rightarrow> calls_for pid cs (fst (run_calls Map.empty cs)) = []
          | Some p \<Rightarrow> calls_for pid cs (fst (run_calls Map.empty cs)) \<noteq> []
                      \<and> profile_tracks p (calls_for pid cs (fst (run_calls Map.empty cs))))"
proof (induction cs rule: rev_induct)
  case Nil
  show ?case by (simp add: calls_for_def)
next
  case (snoc c cs)
  let ?rs = "fst (run_calls Map.empty cs)" and ?st = "snd (run_calls Map.empty cs)"
  let ?r = "fst (do_call ?st c)" and ?st' = "snd (do_call ?st c)"
  have len: "length ?rs = length cs" by (rule length_run_calls)
  have call: "calculate_risk (c_clk c) ?st (c_pid c) (c_cx c) (c_cy c) (c_in_danger_zone c)
                (c_zone_name c) (c_zone_risk c) (c_speed c) (c_posture c) (c_posture_risk c)
              = (?r, ?st')"
    by (simp add: do_call_def)
  have c: "c = \<lparr>c_clk = c_clk c, c_pid = c_pid c, c_cx = c_cx c, c_cy = c_cy c,
                c_in_danger_zone = c_in_danger_zone c, c_zone_name = c_zone_name c,
                c_zone_risk = c_zone_risk c, c_speed = c_speed c, c_posture = c_posture c,
                c_posture_risk = c_posture_risk c\<rparr>"
    by simp
  let ?p = "entry_profile (c_clk c) ?st (c_pid c)"
  have entry: "profile_tracks ?p (calls_for (c_pid c) cs ?rs)"
  proof (cases "?st (c_pid c)")
    case None
    with snoc.IH [THEN spec, of "c_pid c"] have "calls_for (c_pid c) cs ?rs = []"
      by simp
    with None show ?thesis by (simp add: entry_profile_None profile_tracks_init)
  next
    case (Some p)
    with snoc.IH [THEN spec, of "c_pid c"] have "profile_tracks p (calls_for (c_pid c) cs ?rs)"
      by simp
    with Some show ?thesis by (simp add: entry_profile_Some)
  qed
  from profile_tracks_step [OF entry call refl c]
  obtain p' where p': "?st' (c_pid c) = Some p'"
      "profile_tracks p' (calls_for (c_pid c) cs ?rs @ [(c, ?r)])"
    by blast
  have other: "?st' pid = ?st pid" if "pid \<noteq> c_pid c" for pid
    using that by (simp add: calculate_risk_info(5) [OF call])
  show ?case
  proof
    fix pid
    show "case snd (run_calls Map.empty (cs @ [c])) pid of
            None \<Rightarrow> calls_for pid (cs @ [c]) (fst (run_calls Map.empty (cs @ [c]))) = []
          | Some p \<Rightarrow> calls_for pid (cs @ [c]) (fst (run_calls Map.empty (cs @ [c]))) \<noteq> []
                      \<and> profile_tracks p (calls_for pid (cs @ [c]) (fst (run_calls Map.empty (cs @ [c]))))"
    proof (cases "pid = c_pid c")
      case True
      with p' show ?thesis
        by (simp add: run_calls_snoc calls_for_snoc [OF len] cong del: option.case_cong_weak)
    next
      case False
      then have "c_pid c \<noteq> pid" by simp
      with snoc.IH [THEN spec, of pid] other [OF False] show ?thesis
        by (simp add: run_calls_snoc calls_for_snoc [OF len] cong del: option.case_cong_weak)
    qed
  qed
qed


lemma run_calls_Some:
  assumes "run_calls Map.empty cs = (rs, st)" and "st pid = Some p"
  shows "calls_for pid cs rs \<noteq> []" and "profile_tracks p (calls_for pid cs rs)"
  using run_calls_tracks [of cs, THEN spec, of pid] assms by simp_all

lemma run_calls_None:
  assumes "run_calls Map.empty cs = (rs, st)" and "st pid = None"
  shows "calls_for pid cs rs = []"
  using run_calls_tracks [of cs, THEN spec, of pid] assms by simp

lemma c_pid_ramp: "c \<in> set (ramp_calls n) \<Longrightarrow> c_pid c = 7"
  by (auto simp: ramp_calls_def)

lemma length_ramp_calls: "length (ramp_calls n) = n"
  by (simp add: ramp_calls_def)

lemma calls_for_ramp: "calls_for 7 (ramp_calls n) rs = zip (ramp_calls n) rs"
  unfolding calls_for_def filter_id_conv
  by (auto dest: set_zip_leftD c_pid_ramp)

lemma ramp_profile:
  assumes "0 < n"
  shows "\<exists>p. snd (run_calls Map.empty (ramp_calls n)) 7 = Some p"
proof (cases "snd (run_calls Map.empty (ramp_calls n)) 7")
  case None
  have run: "run_calls Map.empty (ramp_calls n)
               = (fst (run_calls Map.empty (ramp_calls n)), snd (run_calls Map.empty (ramp_calls n)))"
    by simp
  have "calls_for 7 (ramp_calls n) (fst (run_calls Map.empty (ramp_calls n))) = []"
    by (rule run_calls_None [OF run None])
  then have "length (zip (ramp_calls n) (fst (run_calls Map.empty (ramp_calls n)))) = 0"
    by (simp only: calls_for_ramp list.size)
  then have "n = 0"
    by (simp only: length_zip length_run_calls length_ramp_calls min.idem)
  with assms show ?thesis by simp
next
  case (Some p)
  then show ?thesis by blast
qed

text \<open>
  C6. For every sequence of \<open>calculate_risk\<close> calls on the initially empty dictionary
  and every identity with a profile, with \<open>mine\<close> the calls made for that identity:
  each of the five histories (timestamps, positions, zone labels, speeds, risk
  scores) has at most 100 entries and holds the last 100 values appended for the
  identity, in call order, so that on overflow the oldest entry is the one dropped
  and the most recent observation is last; after 150 observations each history
  holds exactly 100 entries.
\<close>

theorem bounded_histories:
  assumes "run_calls Map.empty cs = (rs, st)" and "st pid = Some p"
    and "mine = calls_for pid cs rs"
  shows "length (times_d p) \<le> 100 \<and> length (positions p) \<le> 100 \<and> length (zones p) \<le> 100
       \<and> length (speeds p) \<le> 100 \<and> length (risk_scores p) \<le> 100
       \<and> times_d p = drop (length mine - 100) (map (\<lambda>(c, r). t_store (c_clk c)) mine)
       \<and> positions p = drop (length mine - 100) (map (\<lambda>(c, r). (c_cx c, c_cy c)) mine)
       \<and> zones p = drop (length mine - 100) (map (\<lambda>(c, r). c_zone_name c) mine)
       \<and> speeds p = drop (length mine - 100) (map (\<lambda>(c, r). c_speed c) mine)
       \<and> risk_scores p = drop (length mine - 100) (map (\<lambda>(c, r). score r) mine)
       \<and> mine \<noteq> []
       \<and> last (times_d p) = t_store (c_clk (fst (last mine)))
       \<and> last (positions p) = (c_cx (fst (last mine)), c_cy (fst (last mine)))
       \<and> last (zones p) = c_zone_name (fst (last mine))
       \<and> last (speeds p) = c_speed (fst (last mine))
       \<and> last (risk_scores p) = score (snd (last mine))
       \<and> (length mine = 150 \<longrightarrow>
             length (times_d p) = 100 \<and> length (positions p) = 100 \<and> length (zones p) = 100
             \<and> length (speeds p) = 100 \<and> length (risk_scores p) = 100)"
proof -
  have ne: "mine \<noteq> []" and tr: "profile_tracks p mine"
    using run_calls_Some [OF assms(1,2)] by (simp_all add: assms(3))
  from tr have h: "times_d p = kept (map (\<lambda>(c, r). t_store (c_clk c)) mine)"
      "positions p = kept (map (\<lambda>(c, r). (c_cx c, c_cy c)) mine)"
      "zones p = kept (map (\<lambda>(c, r). c_zone_name c) mine)"
      "speeds p = kept (map (\<lambda>(c, r). c_speed c) mine)"
      "risk_scores p = kept (map (\<lambda>(c, r). score r) mine)"
    by (simp_all add: profile_tracks_def)
  have len: "length (times_d p) = min 100 (length mine)"
      "length (positions p) = min 100 (length mine)"
      "length (zones p) = min 100 (length mine)"
      "length (speeds p) = min 100 (length mine)"
      "length (risk_scores p) = min 100 (length mine)"
    by (simp_all add: h length_kept)
  have bound: "length (times_d p) \<le> 100 \<and> length (positions p) \<le> 100 \<and> length (zones p) \<le> 100
       \<and> length (speeds p) \<le> 100 \<and> length (risk_scores p) \<le> 100"
    by (simp add: len)
  have content: "times_d p = drop (length mine - 100) (map (\<lambda>(c, r). t_store (c_clk c)) mine)
       \<and> positions p = drop (length mine - 100) (map (\<lambda>(c, r). (c_cx c, c_cy c)) mine)
       \<and> zones p = drop (length mine - 100) (map (\<lambda>(c, r). c_zone_name c) mine)
       \<and> speeds p = drop (length mine - 100) (map (\<lambda>(c, r). c_speed c) mine)
       \<and> risk_scores p = drop (length mine - 100) (map (\<lambda>(c, r). score r) mine)"
    by (simp add: h kept_def)
  have recent: "last (times_d p) = t_store (c_clk (fst (last mine)))
       \<and> last (positions p) = (c_cx (fst (last mine)), c_cy (fst (last mine)))
       \<and> last (zones p) = c_zone_name (fst (last mine))
       \<and> last (speeds p) = c_speed (fst (last mine))
       \<and> last (risk_scores p) = score (snd (last mine))"
    using ne by (simp add: h last_kept last_map case_prod_beta)
  have full: "length mine = 150 \<longrightarrow>
             length (times_d p) = 100 \<and> length (positions p) = 100 \<and> length (zones p) = 100
             \<and> length (speeds p) = 100 \<and> length (risk_scores p) = 100"
    by (simp add: len)
  from bound content ne recent full show ?thesis by blast
qed

text \<open>
  After the 150 calls of \<open>ramp_calls\<close> every history has 100 entries; the speeds are
  those of the calls 50 to 149 and the last position is that of call 149.
\<close>

theorem bounded_histories_witness:
  "length (times_d (the (snd (run_calls Map.empty (ramp_calls 150)) 7))) = 100
   \<and> length (positions (the (snd (run_calls Map.empty (ramp_calls 150)) 7))) = 100
   \<and> length (zones (the (snd (run_calls Map.empty (ramp_calls 150)) 7))) = 100
   \<and> length (speeds (the (snd (run_calls Map.empty (ramp_calls 150)) 7))) = 100
   \<and> length (risk_scores (the (snd (run_calls Map.empty (ramp_calls 150)) 7))) = 100
   \<and> speeds (the (snd (run_calls Map.empty (ramp_calls 150)) 7)) = map real [50..<150]
   \<and> last (positions (the (snd (run_calls Map.empty (ramp_calls 150)) 7))) = (149, 298)"
proof -
  let ?run = "run_calls Map.empty (ramp_calls 150)"
  let ?mine = "calls_for 7 (ramp_calls 150) (fst ?run)"
  obtain p where p: "snd ?run 7 = Some p"
    using ramp_profile [of 150] by auto
  have run: "?run = (fst ?run, snd ?run)" by simp
  have mine: "?mine = zip (ramp_calls 150) (fst ?run)"
    by (rule calls_for_ramp)
  have len: "length ?mine = 150"
    by (simp add: mine length_run_calls length_ramp_calls)
  have sp: "map (\<lambda>(c, r). c_speed c) ?mine = map real [0..<150]"
  proof -
    have "map (\<lambda>(c, r). c_speed c) ?mine = map c_speed (map fst ?mine)"
      by (simp add: case_prod_beta comp_def)
    also have "map fst ?mine = ramp_calls 150"
      unfolding mine by (rule map_fst_zip) (simp add: length_run_calls length_ramp_calls)
    also have "map c_speed (ramp_calls 150) = map real [0..<150]"
      by (simp add: ramp_calls_def comp_def)
    finally show ?thesis .
  qed
  have lst: "fst (last ?mine) = last (ramp_calls 150)"
  proof -
    have "map fst ?mine = ramp_calls 150"
      unfolding mine by (rule map_fst_zip) (simp add: length_run_calls length_ramp_calls)
    moreover have "?mine \<noteq> []" using len by auto
    ultimately show ?thesis by (metis last_map)
  qed
  have lastc: "last (ramp_calls 150) =
     \<lparr>c_clk = clock_at (1000 + real 149), c_pid = 7, c_cx = int 149, c_cy = 2 * int 149,
       c_in_danger_zone = False, c_zone_name = ''SAFE'', c_zone_risk = 0,
       c_speed = real 149, c_posture = ''STANDING'', c_posture_risk = 0\<rparr>"
  proof -
    have "[0..<150] = [0..<149] @ [149]"
      using upt_Suc_append [of 0 149] by simp
    then show ?thesis by (simp add: ramp_calls_def)
  qed
  from bounded_histories [OF run p refl] len
  have "length (times_d p) = 100 \<and> length (positions p) = 100 \<and> length (zones p) = 100
        \<and> length (speeds p) = 100 \<and> length (risk_scores p) = 100
        \<and> speeds p = drop (length ?mine - 100) (map (\<lambda>(c, r). c_speed c) ?mine)
        \<and> last (positions p) = (c_cx (fst (last ?mine)), c_cy (fst (last ?mine)))"
    by blast
  then show ?thesis
    by (simp add: p len sp lst lastc drop_map)
qed

text \<open>
  C10. After every sequence of \<open>calculate_risk\<close> calls on the initially empty
  dictionary, the five histories of every profile have the same length: the number
  of calls made for the identity, capped at 100.
\<close>

theorem histories_same_length:
  assumes "run_calls Map.empty cs = (rs, st)" and "st pid = Some p"
  shows "length (times_d p) = length (positions p)
       \<and> length (positions p) = length (zones p)
       \<and> length (zones p) = length (speeds p)
       \<and> length (speeds p) = length (risk_scores p)
       \<and> length (risk_scores p) = min 100 (length (calls_for pid cs rs))"
proof -
  have "profile_tracks p (calls_for pid cs rs)"
    using run_calls_Some(2) [OF assms] .
  then show ?thesis
    by (simp add: profile_tracks_def length_kept)
qed

text \<open>
  After the 120 calls of \<open>ramp_calls\<close> the five histories all have 100 entries.
\<close>

theorem histories_same_length_witness:
  "length (times_d (the (snd (run_calls Map.empty (ramp_calls 120)) 7)))
     = length (positions (the (snd (run_calls Map.empty (ramp_calls 120)) 7)))
   \<and> length (positions (the (snd (run_calls Map.empty (ramp_calls 120)) 7)))
     = length (zones (the (snd (run_calls Map.empty (ramp_calls 120)) 7)))
   \<and> length (zones (the (snd (run_calls Map.empty (ramp_calls 120)) 7)))
     = length (speeds (the (snd (run_calls Map.empty (ramp_calls 120)) 7)))
   \<and> length (speeds (the (snd (run_calls Map.empty (ramp_calls 120)) 7)))
     = length (risk_scores (the (snd (run_calls Map.empty (ramp_calls 120)) 7)))
   \<and> length (risk_scores (the (snd (run_calls Map.empty (ramp_calls 120)) 7))) = 100"
proof -
  let ?run = "run_calls Map.empty (ramp_calls 120)"
  obtain p where p: "snd ?run 7 = Some p"
    using ramp_profile [of 120] by auto
  have run: "?run = (fst ?run, snd ?run)" by simp
  have len: "length (calls_for 7 (ramp_calls 120) (fst ?run)) = 120"
    by (simp add: calls_for_ramp length_run_calls length_ramp_calls)
  from histories_same_length [OF run p] show ?thesis
    by (simp add: p len)
qed


end
